theory Spec2Isabelle
  imports Complex_Main "HOL-Library.Sublist" "HOL-Library.Multiset"
begin

section \<open>Data model\<close>

text \<open>
  The dashboard works on a GeoJSON feature collection whose features carry a
  \<^verbatim>\<open>BarangayProperties\<close> bag (\<^verbatim>\<open>types/index.ts\<close>): the fixed fields
  \<^verbatim>\<open>p\<close>, \<^verbatim>\<open>m\<close>, \<^verbatim>\<open>b\<close>, \<^verbatim>\<open>rv\<close>, \<^verbatim>\<open>av\<close> and an index signature holding the
  per-candidate counts under the keys \<^verbatim>\<open>v_<id>\<close>.

  JavaScript numbers are modelled as the real numbers: arithmetic is exact, and the
  only non-finite value the code can produce on finite input, the \<^verbatim>\<open>NaN\<close> of
  \<^verbatim>\<open>Math.sqrt\<close> on a negative argument, is a value of its own in the colour type below.
  The record fields carry the prefix \<open>props_\<close>; \<open>props_av\<close> is optional because the
  code reads it as \<^verbatim>\<open>props.av ?? 0\<close>, and \<open>props_key\<close> is the dynamic lookup
  \<^verbatim>\<open>props[key]\<close>, \<open>None\<close> standing for \<^verbatim>\<open>undefined\<close>.

  A JavaScript string is the sequence of its UTF-16 code units. A code unit is modelled
  as a natural number (the code units are those below 65536; nothing below depends on
  the bound), and \<open>str\<close> turns a literal of the source into its code units.
\<close>

type_synonym code_unit = nat

type_synonym js_string = "code_unit list"

definition str :: "string \<Rightarrow> js_string" where
  "str s = map of_char s"

record BarangayProperties =
  props_p :: js_string
  props_m :: js_string
  props_b :: js_string
  props_rv :: real
  props_av :: "real option"
  props_key :: "js_string \<rightharpoonup> real"

text \<open>
  A feature has optional properties and an optional geometry, as both
  \<^verbatim>\<open>if (!props) continue\<close> and \<^verbatim>\<open>feat.geometry\<close> are tested by the code. The geometry
  itself belongs to the map library and stays a type parameter.
\<close>

record 'g Feature =
  properties :: "BarangayProperties option"
  geometry :: "'g option"

text \<open>
  A \<^verbatim>\<open>SearchResult\<close> of \<^verbatim>\<open>SearchBar.tsx\<close>. Its \<^verbatim>\<open>type\<close> is one of the two string
  literals; the fields \<^verbatim>\<open>municipality\<close> and \<^verbatim>\<open>barangay\<close> are named \<open>municipality_of\<close>
  and \<open>barangay_of\<close> here, and the optional \<^verbatim>\<open>barangay\<close> is \<open>None\<close> when absent.
\<close>

datatype SearchType = barangay | municipality

record SearchResult =
  label :: js_string
  type :: SearchType
  province :: js_string
  municipality_of :: js_string
  barangay_of :: "js_string option"

section \<open>Statistic accessors and share normalisation\<close>

text \<open>The nullish coalescing operator \<^verbatim>\<open>x ?? d\<close>.\<close>

definition nullish :: "'a option \<Rightarrow> 'a \<Rightarrow> 'a" where
  "nullish x d = (case x of None \<Rightarrow> d | Some v \<Rightarrow> v)"

text \<open>\<^verbatim>\<open>(props[`v_${cId}`] as number) ?? 0\<close>\<close>

definition votesFor :: "BarangayProperties \<Rightarrow> js_string \<Rightarrow> real" where
  "votesFor props cId = nullish (props_key props (str ''v_'' @ cId)) 0"

text \<open>\<^verbatim>\<open>props.av ?? 0\<close>\<close>

definition avOf :: "BarangayProperties \<Rightarrow> real" where
  "avOf props = nullish (props_av props) 0"

text \<open>
  The body of \<^verbatim>\<open>computeMaxShare\<close>: the \<^verbatim>\<open>for ... of data.features\<close> loop with its
  running maximum as an accumulator, then \<^verbatim>\<open>return max || 1\<close>.
\<close>

fun maxShare_loop :: "js_string \<Rightarrow> real \<Rightarrow> 'g Feature list \<Rightarrow> real" where
  "maxShare_loop cId mx [] = mx"
| "maxShare_loop cId mx (feat # rest) =
     (case properties feat of
        None \<Rightarrow> maxShare_loop cId mx rest
      | Some props \<Rightarrow>
          (let votes = votesFor props cId;
               av = avOf props
           in if av > 0
              then (let share = votes / av
                    in maxShare_loop cId (if share > mx then share else mx) rest)
              else maxShare_loop cId mx rest))"

definition computeMaxShare :: "'g Feature list \<Rightarrow> js_string \<Rightarrow> real" where
  "computeMaxShare features cId =
     (let mx = maxShare_loop cId 0 features in if mx = 0 then 1 else mx)"

text \<open>
  The share and the normalised share as \<^verbatim>\<open>getStyle\<close> computes them:
  \<^verbatim>\<open>av > 0 ? votes / av : 0\<close> and \<^verbatim>\<open>maxShareRef.current > 0 ? share / maxShareRef.current : 0\<close>.
\<close>

definition shareOf :: "BarangayProperties \<Rightarrow> js_string \<Rightarrow> real" where
  "shareOf props cId =
     (let votes = votesFor props cId; av = avOf props
      in if av > 0 then votes / av else 0)"

definition normalizedOf :: "BarangayProperties \<Rightarrow> js_string \<Rightarrow> real \<Rightarrow> real" where
  "normalizedOf props cId maxShare =
     (let share = shareOf props cId
      in if maxShare > 0 then share / maxShare else 0)"

text \<open>
  The share shown by the \<^verbatim>\<open>Tooltip\<close> of \<^verbatim>\<open>MapView.tsx\<close>:
  \<^verbatim>\<open>av > 0 ? ((votes / av) * 100).toFixed(1) : "0.0"\<close>. The formatted number is kept
  as the number handed to \<^verbatim>\<open>toFixed(1)\<close>.
\<close>

datatype ShareText = ToFixed1 real | Literal string

definition tooltipVotes :: "BarangayProperties \<Rightarrow> js_string \<Rightarrow> real" where
  "tooltipVotes props candidateId = nullish (props_key props (str ''v_'' @ candidateId)) 0"

definition tooltipShare :: "BarangayProperties \<Rightarrow> js_string \<Rightarrow> ShareText" where
  "tooltipShare props candidateId =
     (let votes = tooltipVotes props candidateId; av = nullish (props_av props) 0
      in if av > 0 then ToFixed1 ((votes / av) * 100) else Literal ''0.0'')"

section \<open>Colour scale\<close>

text \<open>
  A fill colour is the CSS text the code returns: a literal such as \<^verbatim>\<open>"#222"\<close>, or
  \<^verbatim>\<open>`rgb(${r}, ${g}, ${b})`\<close> with three rounded channels. When the share is negative
  \<^verbatim>\<open>Math.sqrt\<close> yields \<^verbatim>\<open>NaN\<close>, every channel is \<^verbatim>\<open>NaN\<close> and the text is
  \<^verbatim>\<open>rgb(NaN, NaN, NaN)\<close>: the constructor \<open>RgbNaN\<close>.
\<close>

datatype css_color = Css string | Rgb int int int | RgbNaN

text \<open>\<^verbatim>\<open>Math.round\<close>: the nearest integer, a tie going up.\<close>

definition Math_round :: "real \<Rightarrow> int" where
  "Math_round x = \<lfloor>x + 1 / 2\<rfloor>"

text \<open>
  One code unit of the class \<^verbatim>\<open>[a-f\d]\<close> under the flag \<^verbatim>\<open>i\<close>, with its value: the
  digits \<^verbatim>\<open>0\<close> to \<^verbatim>\<open>9\<close> are the codes 48 to 57, \<^verbatim>\<open>a\<close> to \<^verbatim>\<open>f\<close> the codes 97 to 102 and
  \<^verbatim>\<open>A\<close> to \<^verbatim>\<open>F\<close> the codes 65 to 70.
\<close>

definition hexDigit :: "code_unit \<Rightarrow> nat option" where
  "hexDigit c =
     (if 48 \<le> c \<and> c \<le> 57 then Some (c - 48)
      else if 97 \<le> c \<and> c \<le> 102 then Some (c - 87)
      else if 65 \<le> c \<and> c \<le> 70 then Some (c - 55)
      else None)"

text \<open>
  \<^verbatim>\<open>hexToRgb\<close>: the pattern \<^verbatim>\<open>/^#?([a-f\d]{2})([a-f\d]{2})([a-f\d]{2})$/i\<close> accepts an
  optional \<^verbatim>\<open>#\<close> and exactly six hexadecimal digits; each pair goes through
  \<^verbatim>\<open>parseInt(_, 16)\<close>. Anything else gives the default \<^verbatim>\<open>[251, 146, 60]\<close>.
\<close>

definition hexToRgb :: "js_string \<Rightarrow> int \<times> int \<times> int" where
  "hexToRgb hex =
     (let body = (case hex of [] \<Rightarrow> [] | c # cs \<Rightarrow> if c = of_char CHR ''#'' then cs else c # cs)
      in case map hexDigit body of
           [Some r1, Some r0, Some g1, Some g0, Some b1, Some b0] \<Rightarrow>
             (int (16 * r1 + r0), int (16 * g1 + g0), int (16 * b1 + b0))
         | _ \<Rightarrow> (251, 146, 60))"

text \<open>\<^verbatim>\<open>getFillColor\<close>, the single-hue fill: dark to the candidate's colour.\<close>

definition getFillColor :: "real \<Rightarrow> js_string \<Rightarrow> css_color" where
  "getFillColor share color =
     (case hexToRgb color of (r, g, b) \<Rightarrow>
        if min share 1 < 0 then RgbNaN
        else
          (let t = sqrt (min share 1);
               minBrightness = 0.08;
               factor = minBrightness + t * (1 - minBrightness)
           in Rgb (Math_round (real_of_int r * factor))
                  (Math_round (real_of_int g * factor))
                  (Math_round (real_of_int b * factor))))"

type_synonym hue_stop = "real \<times> int \<times> int \<times> int"

definition MULTI_HUE_STOPS :: "hue_stop list" where
  "MULTI_HUE_STOPS =
     [(0.0, 10, 10, 30),
      (0.15, 15, 60, 90),
      (0.3, 20, 120, 120),
      (0.45, 40, 170, 100),
      (0.6, 160, 200, 40),
      (0.75, 240, 180, 30),
      (0.9, 250, 100, 40),
      (1.0, 255, 240, 220)]"

text \<open>
  The \<^verbatim>\<open>for\<close> loop of \<^verbatim>\<open>getMultiHueFillColor\<close> over the neighbouring pairs of stops:
  the first pair whose positions bracket \<open>t\<close> is kept (\<^verbatim>\<open>break\<close>); with none, \<open>lo\<close>
  and \<open>hi\<close> keep their initial values, passed as \<open>dflt\<close>.
\<close>

fun stops_loop :: "real \<Rightarrow> hue_stop list \<Rightarrow> hue_stop \<times> hue_stop \<Rightarrow> hue_stop \<times> hue_stop" where
  "stops_loop t (s0 # s1 # rest) dflt =
     (if t \<ge> fst s0 \<and> t \<le> fst s1 then (s0, s1) else stops_loop t (s1 # rest) dflt)"
| "stops_loop t [s0] dflt = dflt"
| "stops_loop t [] dflt = dflt"

definition getMultiHueFillColor :: "real \<Rightarrow> css_color" where
  "getMultiHueFillColor share =
     (if min share 1 < 0 then RgbNaN
      else
        (let t = sqrt (min share 1)
         in case stops_loop t MULTI_HUE_STOPS (hd MULTI_HUE_STOPS, last MULTI_HUE_STOPS) of
              ((lo0, lo1, lo2, lo3), (hi0, hi1, hi2, hi3)) \<Rightarrow>
                (let range = (if hi0 - lo0 = 0 then 1 else hi0 - lo0);
                     f = (t - lo0) / range
                 in Rgb (Math_round (real_of_int lo1 + real_of_int (hi1 - lo1) * f))
                        (Math_round (real_of_int lo2 + real_of_int (hi2 - lo2) * f))
                        (Math_round (real_of_int lo3 + real_of_int (hi3 - lo3) * f)))))"

section \<open>Per-feature style\<close>

text \<open>The reference cells of \<^verbatim>\<open>ChoroplethLayer\<close> that \<^verbatim>\<open>getStyle\<close> reads.\<close>

record Refs =
  candidateIdRef :: js_string
  colorRef :: js_string
  searchRef :: "SearchResult option"
  highContrastRef :: bool
  maxShareRef :: real

record PathOptions =
  fillColor :: css_color
  fillOpacity :: real
  weight :: real
  color :: css_color
  opacity :: real

text \<open>The flag \<^verbatim>\<open>isMatch\<close> of \<^verbatim>\<open>getStyle\<close>: \<^verbatim>\<open>true\<close> unless a selection says otherwise.\<close>

definition isMatch :: "SearchResult option \<Rightarrow> BarangayProperties \<Rightarrow> bool" where
  "isMatch sel props =
     (case sel of
        None \<Rightarrow> True
      | Some s \<Rightarrow>
          if type s = municipality
          then props_m props = municipality_of s \<and> props_p props = province s
          else Some (props_b props) = barangay_of s \<and> props_m props = municipality_of s
               \<and> props_p props = province s)"

definition getStyle :: "Refs \<Rightarrow> 'g Feature option \<Rightarrow> PathOptions" where
  "getStyle refs feature =
     (case Option.bind feature properties of
        None \<Rightarrow>
          \<lparr>fillColor = Css ''#000'', fillOpacity = 0.8, weight = 0.3, color = Css ''#222'',
           opacity = 0.4\<rparr>
      | Some props \<Rightarrow>
          (let normalized = normalizedOf props (candidateIdRef refs) (maxShareRef refs);
               sel = searchRef refs;
               selected = (sel \<noteq> None);
               matched = isMatch sel props
           in \<lparr>fillColor = (if highContrastRef refs then getMultiHueFillColor normalized
                            else getFillColor normalized (colorRef refs)),
               fillOpacity = (if selected then (if matched then 0.9 else 0.15) else 0.85),
               weight = (if selected \<and> matched then 1.5 else 0.3),
               color = (if selected \<and> matched then Css ''#fff'' else Css ''#222''),
               opacity = (if selected \<and> matched then 0.8 else 0.4)\<rparr>))"

section \<open>Search index\<close>

text \<open>
  \<^verbatim>\<open>String.prototype.toLowerCase\<close> is the host's: its Unicode case mapping is not part
  of the repository, and the functions below take it as the parameter \<open>toLowerCase\<close>.

  The white space of \<^verbatim>\<open>trim\<close> and of the class \<^verbatim>\<open>\s\<close> is the same set of code units,
  ECMAScript's \<^verbatim>\<open>WhiteSpace\<close> and \<^verbatim>\<open>LineTerminator\<close>: tab, line feed, vertical tab, form
  feed, carriage return, space, no-break space, U+1680, U+2000 to U+200A, U+2028,
  U+2029, U+202F, U+205F, U+3000 and U+FEFF.
\<close>

definition isSpace :: "code_unit \<Rightarrow> bool" where
  "isSpace c \<longleftrightarrow>
     (9 \<le> c \<and> c \<le> 13) \<or> c = 32 \<or> c = 160 \<or> c = 5760 \<or> (8192 \<le> c \<and> c \<le> 8202)
     \<or> c = 8232 \<or> c = 8233 \<or> c = 8239 \<or> c = 8287 \<or> c = 12288 \<or> c = 65279"

definition trim :: "js_string \<Rightarrow> js_string" where
  "trim s = rev (dropWhile isSpace (rev (dropWhile isSpace s)))"

text \<open>
  \<^verbatim>\<open>s.split(/\s+/)\<close>: the pieces between the maximal runs of white space. A run at the
  start or at the end of \<open>s\<close> leaves an empty piece there, and the empty string splits
  into one empty piece.
\<close>

function split_ws :: "js_string \<Rightarrow> js_string list" where
  "split_ws [] = [[]]"
| "split_ws (c # cs) =
     (if isSpace c then [] # split_ws (dropWhile isSpace cs)
      else (case split_ws cs of
              [] \<Rightarrow> [[c]]
            | piece # pieces \<Rightarrow> (c # piece) # pieces))"
  by pat_completeness auto
termination
  by (relation "measure length") (auto simp: le_imp_less_Suc length_dropWhile_le)

text \<open>\<^verbatim>\<open>s.includes(t)\<close>: \<open>t\<close> occurs in \<open>s\<close> at some position.\<close>

fun includes_str :: "js_string \<Rightarrow> js_string \<Rightarrow> bool" where
  "includes_str [] t = (t = [])"
| "includes_str (c # cs) t = (prefix t (c # cs) \<or> includes_str cs t)"

text \<open>
  \<^verbatim>\<open>Array.prototype.sort\<close> with a comparison function is stable; it is modelled as an
  insertion sort, \<open>cmp a b \<le> 0\<close> meaning that \<open>a\<close> may stay before \<open>b\<close>. The comparison
  is \<^verbatim>\<open>a.label.localeCompare(b.label)\<close>, whose collation belongs to the host platform:
  \<open>localeCompare\<close> is a parameter of the index.
\<close>

fun insort_cmp :: "('a \<Rightarrow> 'a \<Rightarrow> int) \<Rightarrow> 'a \<Rightarrow> 'a list \<Rightarrow> 'a list" where
  "insort_cmp cmp x [] = [x]"
| "insort_cmp cmp x (y # ys) =
     (if cmp x y \<le> 0 then x # y # ys else y # insort_cmp cmp x ys)"

definition sort_cmp :: "('a \<Rightarrow> 'a \<Rightarrow> int) \<Rightarrow> 'a list \<Rightarrow> 'a list" where
  "sort_cmp cmp xs = foldr (insort_cmp cmp) xs []"

definition byLabel ::
  "(js_string \<Rightarrow> js_string \<Rightarrow> int) \<Rightarrow> SearchResult \<Rightarrow> SearchResult \<Rightarrow> int" where
  "byLabel localeCompare a b = localeCompare (label a) (label b)"

text \<open>The two entries built for a feature, and the key of the municipality map.\<close>

definition muniKey :: "BarangayProperties \<Rightarrow> js_string" where
  "muniKey props = props_p props @ str ''|'' @ props_m props"

definition muniEntry :: "(js_string \<Rightarrow> js_string) \<Rightarrow> BarangayProperties \<Rightarrow> SearchResult" where
  "muniEntry toLowerCase props =
     \<lparr>label = toLowerCase (props_m props @ str '', '' @ props_p props),
      type = municipality,
      province = props_p props,
      municipality_of = props_m props,
      barangay_of = None\<rparr>"

definition brgyEntry :: "(js_string \<Rightarrow> js_string) \<Rightarrow> BarangayProperties \<Rightarrow> SearchResult" where
  "brgyEntry toLowerCase props =
     \<lparr>label = toLowerCase
         (props_b props @ str '', '' @ props_m props @ str '', '' @ props_p props),
      type = barangay,
      province = props_p props,
      municipality_of = props_m props,
      barangay_of = Some (props_b props)\<rparr>"

text \<open>
  The loop of \<^verbatim>\<open>searchIndex\<close>. The \<^verbatim>\<open>Map\<close> \<open>muniSet\<close> is an association list in
  insertion order, the order in which \<^verbatim>\<open>muniSet.values()\<close> iterates.
\<close>

fun index_loop ::
  "(js_string \<Rightarrow> js_string) \<Rightarrow> 'g Feature list \<Rightarrow> (js_string \<times> SearchResult) list
     \<Rightarrow> SearchResult list \<Rightarrow> (js_string \<times> SearchResult) list \<times> SearchResult list" where
  "index_loop toLowerCase [] muniSet brgyList = (muniSet, brgyList)"
| "index_loop toLowerCase (feat # rest) muniSet brgyList =
     (case properties feat of
        None \<Rightarrow> index_loop toLowerCase rest muniSet brgyList
      | Some props \<Rightarrow>
          index_loop toLowerCase rest
            (if map_of muniSet (muniKey props) \<noteq> None then muniSet
             else muniSet @ [(muniKey props, muniEntry toLowerCase props)])
            (brgyList @ [brgyEntry toLowerCase props]))"

definition searchIndex ::
  "(js_string \<Rightarrow> js_string \<Rightarrow> int) \<Rightarrow> (js_string \<Rightarrow> js_string) \<Rightarrow> 'g Feature list
     \<Rightarrow> SearchResult list" where
  "searchIndex localeCompare toLowerCase features =
     (if features = [] then []
      else (case index_loop toLowerCase features [] [] of
              (muniSet, brgyList) \<Rightarrow>
                (let munis = sort_cmp (byLabel localeCompare) (map snd muniSet)
                 in munis @ sort_cmp (byLabel localeCompare) brgyList)))"

text \<open>The memo \<^verbatim>\<open>results\<close>: the entries shown for the text typed so far.\<close>

definition results ::
  "(js_string \<Rightarrow> js_string) \<Rightarrow> js_string \<Rightarrow> SearchResult list \<Rightarrow> SearchResult list" where
  "results toLowerCase query idx =
     (if trim query = [] then []
      else
        (let q = trim (toLowerCase query);
             tokens = split_ws q;
             matches = filter (\<lambda>item. list_all (\<lambda>t. includes_str (toLowerCase (label item)) t)
                                 tokens) idx
         in take 50 matches))"

section \<open>Viewport controller\<close>

text \<open>
  A Leaflet \<^verbatim>\<open>LatLngBounds\<close> is either empty (\<^verbatim>\<open>L.latLngBounds([])\<close>, not valid) or
  holds a south-west and a north-east corner. \<^verbatim>\<open>extend\<close> with another bounds object
  leaves the receiver alone when the argument is empty, copies the argument when the
  receiver is empty, and otherwise widens the corners.
\<close>

type_synonym LatLng = "real \<times> real"

type_synonym LatLngBounds = "(LatLng \<times> LatLng) option"

definition extend_bounds :: "LatLngBounds \<Rightarrow> LatLngBounds \<Rightarrow> LatLngBounds" where
  "extend_bounds this obj =
     (case obj of
        None \<Rightarrow> this
      | Some (sw2, ne2) \<Rightarrow>
          (case this of
             None \<Rightarrow> Some (sw2, ne2)
           | Some (sw, ne) \<Rightarrow>
               Some ((min (fst sw2) (fst sw), min (snd sw2) (snd sw)),
                     (max (fst ne2) (fst ne), max (snd ne2) (snd ne)))))"

definition isValid :: "LatLngBounds \<Rightarrow> bool" where
  "isValid bounds = (bounds \<noteq> None)"

text \<open>The flag \<^verbatim>\<open>match\<close> of \<^verbatim>\<open>MapZoomController\<close>.\<close>

definition zoomMatch :: "SearchResult \<Rightarrow> BarangayProperties \<Rightarrow> bool" where
  "zoomMatch searchSelection props =
     (if type searchSelection = municipality
      then props_m props = municipality_of searchSelection
           \<and> props_p props = province searchSelection
      else Some (props_b props) = barangay_of searchSelection
           \<and> props_m props = municipality_of searchSelection
           \<and> props_p props = province searchSelection)"

text \<open>
  The loop of the effect. \<open>getBounds g\<close> stands for
  \<^verbatim>\<open>L.geoJSON(feat).getBounds()\<close>, the bounds the map library computes for a geometry.
\<close>

fun zoom_loop ::
  "('g \<Rightarrow> LatLngBounds) \<Rightarrow> SearchResult \<Rightarrow> 'g Feature list \<Rightarrow> LatLngBounds \<Rightarrow> LatLngBounds" where
  "zoom_loop getBounds searchSelection [] bounds = bounds"
| "zoom_loop getBounds searchSelection (feat # rest) bounds =
     (case properties feat of
        None \<Rightarrow> zoom_loop getBounds searchSelection rest bounds
      | Some props \<Rightarrow>
          (case geometry feat of
             Some g \<Rightarrow>
               if zoomMatch searchSelection props
               then zoom_loop getBounds searchSelection rest (extend_bounds bounds (getBounds g))
               else zoom_loop getBounds searchSelection rest bounds
           | None \<Rightarrow> zoom_loop getBounds searchSelection rest bounds))"

text \<open>
  What the effect asks of the map: nothing, or one
  \<^verbatim>\<open>map.fitBounds(bounds, { padding: [40, 40], maxZoom: 16 })\<close>.
\<close>

record FitBounds =
  fit_bounds :: LatLngBounds
  padding :: "real \<times> real"
  maxZoom :: real

definition MapZoomController ::
  "('g \<Rightarrow> LatLngBounds) \<Rightarrow> 'g Feature list \<Rightarrow> SearchResult option \<Rightarrow> FitBounds option" where
  "MapZoomController getBounds features searchSelection =
     (case searchSelection of
        None \<Rightarrow> None
      | Some sel \<Rightarrow>
          (let bounds = zoom_loop getBounds sel features None
           in if isValid bounds
              then Some \<lparr>fit_bounds = bounds, padding = (40, 40), maxZoom = 16\<rparr>
              else None))"

section \<open>Vocabulary of the properties\<close>

text \<open>
  The shares the normalisation looks at: one per feature that has properties and a
  positive number of actual voters, in collection order. \<open>observedMax\<close> is their
  maximum, counting the initial value 0 of the running maximum.
\<close>

definition observedShares :: "'g Feature list \<Rightarrow> js_string \<Rightarrow> real list" where
  "observedShares features cId =
     map (\<lambda>props. votesFor props cId / avOf props)
       (filter (\<lambda>props. avOf props > 0) (List.map_filter properties features))"

definition observedMax :: "'g Feature list \<Rightarrow> js_string \<Rightarrow> real" where
  "observedMax features cId = Max (set (0 # observedShares features cId))"

text \<open>
  The bounds the viewport controller collects: those of the features that have
  properties and a geometry and match the selection, in collection order.
\<close>

definition matchedBounds ::
  "('g \<Rightarrow> LatLngBounds) \<Rightarrow> SearchResult \<Rightarrow> 'g Feature list \<Rightarrow> LatLngBounds list" where
  "matchedBounds getBounds sel features =
     concat (map (\<lambda>feat.
        case (properties feat, geometry feat) of
          (Some props, Some g) \<Rightarrow> if zoomMatch sel props then [getBounds g] else []
        | _ \<Rightarrow> []) features)"

text \<open>
  The brightness of a colour is measured by its luma,
  \<open>0.299 R + 0.587 G + 0.114 B\<close>.
\<close>

definition luminance :: "css_color \<Rightarrow> real" where
  "luminance c =
     (case c of
        Rgb r g b \<Rightarrow> 0.299 * real_of_int r + 0.587 * real_of_int g + 0.114 * real_of_int b
      | _ \<Rightarrow> 0)"



text \<open>
  The property records of a collection, in order; the municipality and the barangay
  entries of an index; the key of a municipality entry, \<^verbatim>\<open>province|municipality\<close>.
\<close>

definition propsOf :: "'g Feature list \<Rightarrow> BarangayProperties list" where
  "propsOf features = List.map_filter properties features"

definition adminEntries :: "SearchResult list \<Rightarrow> SearchResult list" where
  "adminEntries idx = filter (\<lambda>e. type e = municipality) idx"

definition leafEntries :: "SearchResult list \<Rightarrow> SearchResult list" where
  "leafEntries idx = filter (\<lambda>e. type e = barangay) idx"

definition entryKey :: "SearchResult \<Rightarrow> js_string" where
  "entryKey e = province e @ str ''|'' @ municipality_of e"

text \<open>
  The invariant of the municipality map along the loop over the records \<open>ps\<close> seen so
  far: one entry per key, a key for every record, and each entry built from the first
  record that has its key.
\<close>

definition muniInv ::
  "(js_string \<Rightarrow> js_string) \<Rightarrow> BarangayProperties list \<Rightarrow> (js_string \<times> SearchResult) list
     \<Rightarrow> bool" where
  "muniInv toLowerCase ps ms \<longleftrightarrow>
     distinct (map fst ms)
     \<and> fst ` set ms = muniKey ` set ps
     \<and> (\<forall>(k, e) \<in> set ms.
           \<exists>p. find (\<lambda>q. muniKey q = k) ps = Some p \<and> e = muniEntry toLowerCase p)"

text \<open>
  The tokens of a text, said without \<^verbatim>\<open>trim\<close> and \<^verbatim>\<open>split\<close>: its maximal runs of code
  units that are not white space, from left to right.
\<close>

function wordsOf :: "js_string \<Rightarrow> js_string list" where
  "wordsOf s =
     (case dropWhile isSpace s of
        [] \<Rightarrow> []
      | c # cs \<Rightarrow>
          takeWhile (\<lambda>x. \<not> isSpace x) (c # cs) # wordsOf (dropWhile (\<lambda>x. \<not> isSpace x) (c # cs)))"
  by pat_completeness auto
termination
proof (relation "measure length")
  show "wf (measure length)" by simp
next
  fix s :: js_string and c cs
  assume d: "dropWhile isSpace s = c # cs"
  have nc: "\<not> isSpace c" using hd_dropWhile [of isSpace s] d by simp
  have "length (dropWhile (\<lambda>x. \<not> isSpace x) (c # cs)) \<le> length cs"
    using nc by (simp add: length_dropWhile_le)
  also have "\<dots> < length (dropWhile isSpace s)" using d by simp
  also have "\<dots> \<le> length s" by (rule length_dropWhile_le)
  finally show "(dropWhile (\<lambda>x. \<not> isSpace x) (c # cs), s) \<in> measure length" by simp
qed

declare wordsOf.simps [simp del]

text \<open>
  The value of a hexadecimal digit read off the table of the sixteen digits, in either
  case of the letters.
\<close>

definition hexValue :: "code_unit \<Rightarrow> nat option" where
  "hexValue c =
     map_of (zip (str ''0123456789abcdefABCDEF'')
               [0, 1, 2, 3, 4, 5, 6, 7, 8, 9, 10, 11, 12, 13, 14, 15, 10, 11, 12, 13, 14, 15]) c"

section \<open>Concrete inputs\<close>

text \<open>
  Collections for the normalisation: one feature with 1 vote among 2 voters; two features
  without turnout; and a record with no votes recorded at all.
\<close>

definition halfShare :: "unit Feature list" where
  "halfShare =
     [\<lparr>properties = Some \<lparr>props_p = str ''p'', props_m = str ''m'', props_b = str ''b'', props_rv = 2,
         props_av = Some 2, props_key = [str ''v_s01'' \<mapsto> 1]\<rparr>, geometry = None\<rparr>]"

definition noTurnout :: "unit Feature list" where
  "noTurnout =
     [\<lparr>properties = Some \<lparr>props_p = str ''p'', props_m = str ''m'', props_b = str ''b'', props_rv = 2,
         props_av = Some 0, props_key = [str ''v_s01'' \<mapsto> 1]\<rparr>, geometry = None\<rparr>,
      \<lparr>properties = Some \<lparr>props_p = str ''p'', props_m = str ''m'', props_b = str ''c'', props_rv = 5,
         props_av = None, props_key = Map.empty\<rparr>, geometry = None\<rparr>]"

definition emptyBallot :: BarangayProperties where
  "emptyBallot =
     \<lparr>props_p = str ''p'', props_m = str ''m'', props_b = str ''b'', props_rv = 7, props_av = Some 0,
      props_key = Map.empty\<rparr>"

text \<open>
  Two barangays of Metro Manila whose geometries are given by their bounding boxes, a
  record from another province, and reference cells for the candidate \<^verbatim>\<open>s01\<close>.
\<close>

definition brgyProps :: BarangayProperties where
  "brgyProps =
     \<lparr>props_p = str ''Metro Manila'', props_m = str ''Quezon City'', props_b = str ''Barangay 1'',
      props_rv = 4, props_av = Some 4, props_key = [str ''v_s01'' \<mapsto> 1]\<rparr>"

definition otherProps :: BarangayProperties where
  "otherProps =
     \<lparr>props_p = str ''Metro Manila'', props_m = str ''Pasig'', props_b = str ''Barangay 1'',
      props_rv = 2, props_av = Some 2, props_key = [str ''v_s01'' \<mapsto> 1]\<rparr>"

definition strayProps :: BarangayProperties where
  "strayProps =
     \<lparr>props_p = str ''Cebu'', props_m = str ''Carcar'', props_b = str ''Ocana'',
      props_rv = 2, props_av = Some 2, props_key = Map.empty\<rparr>"

definition qcFeature :: "LatLngBounds Feature" where
  "qcFeature =
     \<lparr>properties = Some brgyProps, geometry = Some (Some ((14, 121), (15, 122)))\<rparr>"

definition pasigFeature :: "LatLngBounds Feature" where
  "pasigFeature =
     \<lparr>properties = Some otherProps, geometry = Some (Some ((13, 121), (14, 123)))\<rparr>"

definition mapFeatures :: "LatLngBounds Feature list" where
  "mapFeatures = [qcFeature, pasigFeature]"

definition exampleRefs :: Refs where
  "exampleRefs =
     \<lparr>candidateIdRef = str ''s01'', colorRef = str ''#3b82f6'', searchRef = None,
      highContrastRef = False, maxShareRef = 1 / 2\<rparr>"

text \<open>A feature without properties.\<close>

definition bareFeature :: "LatLngBounds Feature" where
  "bareFeature = \<lparr>properties = None, geometry = Some (Some ((14, 121), (15, 122)))\<rparr>"

text \<open>
  The host's \<^verbatim>\<open>toLowerCase\<close> on strings whose code units are all below 256, where it
  works unit by unit: the letters \<^verbatim>\<open>A\<close> to \<^verbatim>\<open>Z\<close> and U+00C0 to U+00DE, the
  multiplication sign U+00D7 apart, move up by 32 and every other unit stays. It stands
  for the parameter \<open>toLowerCase\<close> on concrete inputs.
\<close>

definition lowerLatin1 :: "js_string \<Rightarrow> js_string" where
  "lowerLatin1 s =
     map (\<lambda>c. if (65 \<le> c \<and> c \<le> 90) \<or> (192 \<le> c \<and> c \<le> 222 \<and> c \<noteq> 215) then c + 32 else c) s"

text \<open>An index with two municipalities called San Jose.\<close>

definition sanJoseIndex :: "SearchResult list" where
  "sanJoseIndex =
     [\<lparr>label = str ''san jose, batangas'', type = municipality, province = str ''Batangas'',
       municipality_of = str ''San Jose'', barangay_of = None\<rparr>,
      \<lparr>label = str ''san jose del monte, bulacan'', type = municipality, province = str ''Bulacan'',
       municipality_of = str ''San Jose del Monte'', barangay_of = None\<rparr>,
      \<lparr>label = str ''poblacion, carcar, cebu'', type = barangay, province = str ''Cebu'',
       municipality_of = str ''Carcar'', barangay_of = Some (str ''Poblacion'')\<rparr>]"

text \<open>
  An index with Las Pi\<^verbatim>\<open>n~\<close>as, whose fifth letter is the code unit 241 (U+00F1); the
  capital letter is 209 (U+00D1) and 160 is the no-break space.
\<close>

definition pinasIndex :: "SearchResult list" where
  "pinasIndex =
     [\<lparr>label = str ''las pi'' @ [241] @ str ''as, metro manila'', type = municipality,
       province = str ''Metro Manila'', municipality_of = str ''Las Pi'' @ [241] @ str ''as'',
       barangay_of = None\<rparr>,
      \<lparr>label = str ''almanza uno, las pi'' @ [241] @ str ''as, metro manila'', type = barangay,
       province = str ''Metro Manila'', municipality_of = str ''Las Pi'' @ [241] @ str ''as'',
       barangay_of = Some (str ''Almanza Uno'')\<rparr>,
      \<lparr>label = str ''pasig, metro manila'', type = municipality,
       province = str ''Metro Manila'', municipality_of = str ''Pasig'', barangay_of = None\<rparr>]"

section \<open>Verified properties\<close>
subsection \<open>Share normalisation\<close>

lemma observedShares_Nil: "observedShares [] cId = []"
  by (simp add: observedShares_def List.map_filter_simps)

lemma observedShares_Cons:
  "observedShares (feat # rest) cId =
     (case properties feat of
        None \<Rightarrow> observedShares rest cId
      | Some props \<Rightarrow>
          if avOf props > 0 then (votesFor props cId / avOf props) # observedShares rest cId
          else observedShares rest cId)"
  by (simp add: observedShares_def List.map_filter_simps split: option.split)

lemma maxShare_loop_Max:
  "maxShare_loop cId mx features = Max (set (mx # observedShares features cId))"
proof (induction features arbitrary: mx)
  case Nil
  show ?case by (simp add: observedShares_Nil)
next
  case (Cons feat rest)
  show ?case
  proof (cases "properties feat")
    case None
    then show ?thesis using Cons.IH [of mx] by (simp add: observedShares_Cons)
  next
    case (Some props)
    show ?thesis
    proof (cases "avOf props > 0")
      case False
      then show ?thesis using Some Cons.IH [of mx] by (simp add: observedShares_Cons)
    next
      case True
      let ?s = "votesFor props cId / avOf props"
      have "maxShare_loop cId mx (feat # rest) = maxShare_loop cId (max ?s mx) rest"
        using Some True by (simp add: Let_def max_def)
      also have "\<dots> = Max (set (max ?s mx # observedShares rest cId))"
        by (rule Cons.IH)
      also have "\<dots> = Max (set (mx # observedShares (feat # rest) cId))"
        using Some True
        by (cases "observedShares rest cId = []")
           (simp_all add: observedShares_Cons max.commute max.left_commute)
      finally show ?thesis .
    qed
  qed
qed

lemma computeMaxShare_observed:
  "computeMaxShare features cId =
     (if observedMax features cId = 0 then 1 else observedMax features cId)"
  by (simp add: computeMaxShare_def observedMax_def maxShare_loop_Max Let_def)

text \<open>
  Claim C1, as the code has it. \<^verbatim>\<open>computeMaxShare\<close> passes over the features once
  and returns the largest share \<open>votes / av\<close> among the features with \<open>av > 0\<close> when
  that maximum is not 0, and the floor 1 when it is 0. In particular a collection in
  which every feature has \<open>av = 0\<close> gives exactly 1, and nothing is divided by 0.
\<close>

theorem computeMaxShare_floor:
  "computeMaxShare features cId =
     (if observedMax features cId = 0 then 1 else observedMax features cId)
   \<and> ((\<forall>feat \<in> set features. \<forall>props. properties feat = Some props \<longrightarrow> avOf props = 0)
        \<longrightarrow> computeMaxShare features cId = 1)"
proof
  show "computeMaxShare features cId =
     (if observedMax features cId = 0 then 1 else observedMax features cId)"
    by (rule computeMaxShare_observed)
  show "(\<forall>feat \<in> set features. \<forall>props. properties feat = Some props \<longrightarrow> avOf props = 0)
        \<longrightarrow> computeMaxShare features cId = 1"
  proof
    assume h: "\<forall>feat \<in> set features. \<forall>props. properties feat = Some props \<longrightarrow> avOf props = 0"
    have "observedShares features cId = []"
      using h
      by (induction features)
         (auto simp: observedShares_Nil observedShares_Cons split: option.split)
    then have "observedMax features cId = 0" by (simp add: observedMax_def)
    then show "computeMaxShare features cId = 1" by (simp add: computeMaxShare_observed)
  qed
qed

theorem computeMaxShare_floor_witness:
  "map (\<lambda>feat. map_option avOf (properties feat)) noTurnout = [Some 0, Some 0]
   \<and> computeMaxShare noTurnout (str ''s01'') = 1"
proof -
  have h: "\<forall>feat \<in> set noTurnout. \<forall>props. properties feat = Some props \<longrightarrow> avOf props = 0"
    by (auto simp: noTurnout_def avOf_def nullish_def str_def)
  have "map (\<lambda>feat. map_option avOf (properties feat)) noTurnout = [Some 0, Some 0]"
    by (simp add: noTurnout_def avOf_def nullish_def str_def)
  with h computeMaxShare_floor [of noTurnout "(str ''s01'')"] show ?thesis by blast
qed

text \<open>
  The claim as it was stated, with \<open>max observedMax 1\<close> as the result, fails where the
  largest share lies strictly between 0 and 1: one feature with 1 vote among 2 voters
  gives 1/2, not 1.
\<close>

theorem computeMaxShare_not_max_one:
  "computeMaxShare halfShare (str ''s01'') = 1 / 2
   \<and> max (observedMax halfShare (str ''s01'')) 1 = 1"
  by (simp add: computeMaxShare_def halfShare_def votesFor_def avOf_def nullish_def str_def Let_def
        observedMax_def observedShares_def List.map_filter_simps)

subsection \<open>Missing data\<close>

text \<open>
  Claim C9. When the property \<^verbatim>\<open>v_<id>\<close> is absent the votes read by \<^verbatim>\<open>getStyle\<close> and
  by the \<^verbatim>\<open>Tooltip\<close> are 0; when the actual voters are 0 (or absent) the share is 0,
  the normalised share is 0 and the tooltip shows \<^verbatim>\<open>0.0\<close>. Nothing is divided by 0 and
  no error value exists in these functions.
\<close>

theorem absent_data_defaults:
  "(props_key props (str ''v_'' @ cId) = None
      \<longrightarrow> votesFor props cId = 0 \<and> tooltipVotes props cId = 0)
   \<and> (avOf props = 0
      \<longrightarrow> shareOf props cId = 0 \<and> normalizedOf props cId maxShare = 0
          \<and> tooltipShare props cId = Literal ''0.0'')"
  by (simp add: votesFor_def tooltipVotes_def shareOf_def normalizedOf_def tooltipShare_def
        avOf_def nullish_def str_def Let_def)

theorem absent_data_defaults_witness:
  "props_key emptyBallot (str ''v_'' @ str ''s01'') = None \<and> avOf emptyBallot = 0
   \<and> votesFor emptyBallot (str ''s01'') = 0 \<and> tooltipVotes emptyBallot (str ''s01'') = 0
   \<and> shareOf emptyBallot (str ''s01'') = 0 \<and> normalizedOf emptyBallot (str ''s01'') 1 = 0
   \<and> tooltipShare emptyBallot (str ''s01'') = Literal ''0.0''"
proof -
  have k: "props_key emptyBallot (str ''v_'' @ str ''s01'') = None" by (simp add: emptyBallot_def)
  have a: "avOf emptyBallot = 0" by (simp add: emptyBallot_def avOf_def nullish_def str_def)
  from k a absent_data_defaults [of emptyBallot "(str ''s01'')" 1] show ?thesis by blast
qed

subsection \<open>Normalised shares stay in the unit interval\<close>

lemma shareOf_le_observedMax:
  assumes "feat \<in> set features" "properties feat = Some props"
  shows "shareOf props cId \<le> observedMax features cId"
proof (cases "avOf props > 0")
  case False
  then have "shareOf props cId = 0" by (simp add: shareOf_def Let_def)
  then show ?thesis by (simp add: observedMax_def)
next
  case True
  have "props \<in> set (List.map_filter properties features)"
    using assms by (force simp: List.map_filter_def)
  then have "votesFor props cId / avOf props \<in> set (observedShares features cId)"
    using True by (auto simp: observedShares_def)
  then have "votesFor props cId / avOf props \<le> observedMax features cId"
    by (simp add: observedMax_def)
  then show ?thesis using True by (simp add: shareOf_def Let_def)
qed

lemma observedMax_nonneg: "0 \<le> observedMax features cId"
  by (simp add: observedMax_def)

lemma shareOf_nonneg: "0 \<le> votesFor props cId \<Longrightarrow> 0 \<le> shareOf props cId"
  by (simp add: shareOf_def Let_def)

lemma normalized_bounds:
  assumes nonneg: "\<forall>feat \<in> set features. \<forall>props. properties feat = Some props \<longrightarrow> 0 \<le> votesFor props cId"
    and mem: "feat \<in> set features" and pr: "properties feat = Some props"
  shows "0 \<le> normalizedOf props cId (computeMaxShare features cId)"
    and "normalizedOf props cId (computeMaxShare features cId) \<le> 1"
    and "observedMax features cId = 0 \<Longrightarrow> shareOf props cId = 0"
proof -
  let ?M = "observedMax features cId"
  let ?s = "shareOf props cId"
  have s0: "0 \<le> ?s" using nonneg mem pr by (auto intro: shareOf_nonneg)
  have sM: "?s \<le> ?M" using mem pr by (rule shareOf_le_observedMax)
  show z: "?M = 0 \<Longrightarrow> ?s = 0" using s0 sM by simp
  show "0 \<le> normalizedOf props cId (computeMaxShare features cId)"
    using s0 observedMax_nonneg [of features cId]
    by (simp add: normalizedOf_def computeMaxShare_observed Let_def)
  show "normalizedOf props cId (computeMaxShare features cId) \<le> 1"
  proof (cases "?M = 0")
    case True
    then show ?thesis using z by (simp add: normalizedOf_def computeMaxShare_observed Let_def)
  next
    case False
    then have "0 < ?M" using observedMax_nonneg [of features cId] by simp
    then show ?thesis using sM False
      by (simp add: normalizedOf_def computeMaxShare_observed Let_def)
  qed
qed

lemma getFillColor_not_NaN: "0 \<le> v \<Longrightarrow> getFillColor v c \<noteq> RgbNaN"
  by (auto simp: getFillColor_def Let_def min_def split: prod.split)

lemma getMultiHueFillColor_not_NaN: "0 \<le> v \<Longrightarrow> getMultiHueFillColor v \<noteq> RgbNaN"
  by (auto simp: getMultiHueFillColor_def Let_def min_def split: prod.split)

text \<open>
  Claim C10. When no feature has a negative count for the candidate and the maximum
  share was computed from the same collection and candidate, the normalised share of
  every feature lies between 0 and 1: each share is at most the observed maximum, and the
  floor 1 stands in only when every share is 0. So \<^verbatim>\<open>Math.min(_, 1)\<close> leaves the value
  alone, \<^verbatim>\<open>Math.sqrt\<close> gets a non-negative argument, and neither fill function yields
  \<^verbatim>\<open>NaN\<close> channels.
\<close>

theorem normalized_in_unit_interval:
  assumes "\<forall>feat \<in> set features. \<forall>props. properties feat = Some props \<longrightarrow> 0 \<le> votesFor props cId"
    and "feat \<in> set features" and "properties feat = Some props"
  shows "0 \<le> normalizedOf props cId (computeMaxShare features cId)
       \<and> normalizedOf props cId (computeMaxShare features cId) \<le> 1
       \<and> min (normalizedOf props cId (computeMaxShare features cId)) 1
           = normalizedOf props cId (computeMaxShare features cId)
       \<and> shareOf props cId \<le> observedMax features cId
       \<and> (observedMax features cId = 0 \<longrightarrow> shareOf props cId = 0)
       \<and> getFillColor (normalizedOf props cId (computeMaxShare features cId)) c \<noteq> RgbNaN
       \<and> getMultiHueFillColor (normalizedOf props cId (computeMaxShare features cId)) \<noteq> RgbNaN"
  using normalized_bounds [OF assms] shareOf_le_observedMax [OF assms(2,3), of cId]
    getFillColor_not_NaN getMultiHueFillColor_not_NaN
  by simp

theorem normalized_in_unit_interval_witness:
  "normalizedOf brgyProps (str ''s01'') (computeMaxShare mapFeatures (str ''s01'')) = 1 / 2
   \<and> 0 \<le> normalizedOf brgyProps (str ''s01'') (computeMaxShare mapFeatures (str ''s01''))
   \<and> normalizedOf brgyProps (str ''s01'') (computeMaxShare mapFeatures (str ''s01'')) \<le> 1
   \<and> min (normalizedOf brgyProps (str ''s01'') (computeMaxShare mapFeatures (str ''s01''))) 1
       = normalizedOf brgyProps (str ''s01'') (computeMaxShare mapFeatures (str ''s01''))
   \<and> getFillColor (normalizedOf brgyProps (str ''s01'') (computeMaxShare mapFeatures (str ''s01''))) (str ''#fb923c'')
       \<noteq> RgbNaN"
proof -
  have nonneg: "\<forall>feat \<in> set mapFeatures. \<forall>props. properties feat = Some props
                  \<longrightarrow> 0 \<le> votesFor props (str ''s01'')"
    by (auto simp: mapFeatures_def qcFeature_def pasigFeature_def brgyProps_def otherProps_def
          votesFor_def nullish_def str_def)
  have mem: "qcFeature \<in> set mapFeatures" by (simp add: mapFeatures_def)
  have pr: "properties qcFeature = Some brgyProps" by (simp add: qcFeature_def)
  have val: "normalizedOf brgyProps (str ''s01'') (computeMaxShare mapFeatures (str ''s01'')) = 1 / 2"
    by (simp add: normalizedOf_def shareOf_def computeMaxShare_def mapFeatures_def qcFeature_def
          pasigFeature_def brgyProps_def otherProps_def votesFor_def avOf_def nullish_def str_def Let_def)
  from val normalized_in_unit_interval [OF nonneg mem pr, of "(str ''#fb923c'')"]
  show ?thesis by blast
qed

subsection \<open>Colour scale\<close>

lemma Math_round_of_int: "Math_round (real_of_int k) = k"
  by (simp add: Math_round_def)

lemma Math_round_mono: "x \<le> y \<Longrightarrow> Math_round x \<le> Math_round y"
  by (simp add: Math_round_def floor_mono)

lemma hexToRgb_nonneg: "hexToRgb hex = (r, g, b) \<Longrightarrow> 0 \<le> r \<and> 0 \<le> g \<and> 0 \<le> b"
  by (auto simp: hexToRgb_def Let_def split: list.splits option.splits if_splits)

lemma luminance_mono:
  "r1 \<le> r2 \<Longrightarrow> g1 \<le> g2 \<Longrightarrow> b1 \<le> b2 \<Longrightarrow> luminance (Rgb r1 g1 b1) \<le> luminance (Rgb r2 g2 b2)"
  by (simp add: luminance_def add_mono)

lemma getFillColor_formula:
  assumes "hexToRgb hex = (r, g, b)" and "0 \<le> v" and "v \<le> 1"
  shows "getFillColor v hex =
           Rgb (Math_round (real_of_int r * (0.08 + sqrt v * 0.92)))
               (Math_round (real_of_int g * (0.08 + sqrt v * 0.92)))
               (Math_round (real_of_int b * (0.08 + sqrt v * 0.92)))"
  using assms by (simp add: getFillColor_def Let_def min_def)

lemma sqrt_quarter: "sqrt (1 / 4) = 1 / 2"
  by (rule real_sqrt_unique) (simp_all add: power2_eq_square)

lemma sqrt_9_100: "sqrt (9 / 100) = 3 / 10"
  by (rule real_sqrt_unique) (simp_all add: power2_eq_square)

lemma sqrt_81_100: "sqrt (81 / 100) = 9 / 10"
  by (rule real_sqrt_unique) (simp_all add: power2_eq_square)

lemma sqrt_9_16: "sqrt (9 / 16) = 3 / 4"
  by (rule real_sqrt_unique) (simp_all add: power2_eq_square)

lemma sqrt_49_64: "sqrt (49 / 64) = 7 / 8"
  by (rule real_sqrt_unique) (simp_all add: power2_eq_square)

lemma getFillColor_clamped:
  "hexToRgb hex = (r, g, b) \<Longrightarrow> 1 \<le> w \<Longrightarrow> getFillColor w hex = Rgb r g b"
  by (simp add: getFillColor_def Let_def min_def Math_round_of_int)

lemma hexDigit_hexValue: "hexDigit c = hexValue c"
proof -
  consider "c < 48" | "48 \<le> c \<and> c \<le> 57" | "57 < c \<and> c < 65" | "65 \<le> c \<and> c \<le> 70"
    | "70 < c \<and> c < 97" | "97 \<le> c \<and> c \<le> 102" | "102 < c"
    by linarith
  then show ?thesis
  proof cases
    case 1
    then show ?thesis by (simp add: hexDigit_def hexValue_def str_def)
  next
    case 2
    then have "c = 48 \<or> c = 49 \<or> c = 50 \<or> c = 51 \<or> c = 52 \<or> c = 53 \<or> c = 54 \<or> c = 55 \<or> c = 56 \<or> c = 57" by presburger
    then show ?thesis by (auto simp: hexDigit_def hexValue_def str_def)
  next
    case 3
    then show ?thesis by (simp add: hexDigit_def hexValue_def str_def)
  next
    case 4
    then have "c = 65 \<or> c = 66 \<or> c = 67 \<or> c = 68 \<or> c = 69 \<or> c = 70" by presburger
    then show ?thesis by (auto simp: hexDigit_def hexValue_def str_def)
  next
    case 5
    then show ?thesis by (simp add: hexDigit_def hexValue_def str_def)
  next
    case 6
    then have "c = 97 \<or> c = 98 \<or> c = 99 \<or> c = 100 \<or> c = 101 \<or> c = 102" by presburger
    then show ?thesis by (auto simp: hexDigit_def hexValue_def str_def)
  next
    case 7
    then show ?thesis by (simp add: hexDigit_def hexValue_def str_def)
  qed
qed

lemma hexToRgb_wellformed:
  assumes "map hexValue [c1, c2, c3, c4, c5, c6]
             = [Some r1, Some r0, Some g1, Some g0, Some b1, Some b0]"
    and "hex = [c1, c2, c3, c4, c5, c6] \<or> hex = str ''#'' @ [c1, c2, c3, c4, c5, c6]"
  shows "hexToRgb hex = (int (16 * r1 + r0), int (16 * g1 + g0), int (16 * b1 + b0))"
proof -
  have d: "map hexDigit [c1, c2, c3, c4, c5, c6]
             = [Some r1, Some r0, Some g1, Some g0, Some b1, Some b0]"
    using assms(1) by (simp add: hexDigit_hexValue)
  have "hexDigit 35 = None" by (simp add: hexDigit_def)
  then have c1: "c1 \<noteq> 35" using d by auto
  show ?thesis
    using assms(2) d c1 by (auto simp: hexToRgb_def str_def Let_def)
qed

text \<open>
  Claim C5. The base colour is a string of six hexadecimal digits, with or without a
  leading \<^verbatim>\<open>#\<close>; its channels are the three pairs of digits, \<open>16 * high + low\<close>. For a
  normalised value between 0 and 1 each channel of the single-hue fill is
  \<open>round (channel * (0.08 + sqrt v * 0.92))\<close>. At 0 the factor is 0.08, and at 1 the fill
  is the base colour itself, as it is for every value above 1, which \<^verbatim>\<open>Math.min\<close> clamps
  to 1.
\<close>

theorem single_hue_channels:
  assumes "0 \<le> v" and "v \<le> 1"
    and "map hexValue [c1, c2, c3, c4, c5, c6]
           = [Some r1, Some r0, Some g1, Some g0, Some b1, Some b0]"
    and "hex = [c1, c2, c3, c4, c5, c6] \<or> hex = str ''#'' @ [c1, c2, c3, c4, c5, c6]"
  shows "getFillColor v hex =
           Rgb (Math_round (real (16 * r1 + r0) * (0.08 + sqrt v * 0.92)))
               (Math_round (real (16 * g1 + g0) * (0.08 + sqrt v * 0.92)))
               (Math_round (real (16 * b1 + b0) * (0.08 + sqrt v * 0.92)))
       \<and> getFillColor 0 hex =
           Rgb (Math_round (real (16 * r1 + r0) * 0.08))
               (Math_round (real (16 * g1 + g0) * 0.08))
               (Math_round (real (16 * b1 + b0) * 0.08))
       \<and> getFillColor 1 hex = Rgb (int (16 * r1 + r0)) (int (16 * g1 + g0)) (int (16 * b1 + b0))
       \<and> (1 \<le> w \<longrightarrow>
            getFillColor w hex = Rgb (int (16 * r1 + r0)) (int (16 * g1 + g0)) (int (16 * b1 + b0)))"
proof -
  have h: "hexToRgb hex = (int (16 * r1 + r0), int (16 * g1 + g0), int (16 * b1 + b0))"
    using assms(3,4) by (rule hexToRgb_wellformed)
  have clamp: "1 \<le> w \<longrightarrow>
      getFillColor w hex = Rgb (int (16 * r1 + r0)) (int (16 * g1 + g0)) (int (16 * b1 + b0))"
    using getFillColor_clamped [OF h] by blast
  have one: "getFillColor 1 hex = Rgb (int (16 * r1 + r0)) (int (16 * g1 + g0)) (int (16 * b1 + b0))"
    using getFillColor_clamped [OF h, of 1] by simp
  have f: "getFillColor v hex =
           Rgb (Math_round (real (16 * r1 + r0) * (0.08 + sqrt v * 0.92)))
               (Math_round (real (16 * g1 + g0) * (0.08 + sqrt v * 0.92)))
               (Math_round (real (16 * b1 + b0) * (0.08 + sqrt v * 0.92)))"
    using getFillColor_formula [OF h assms(1,2)] by simp
  have z: "getFillColor 0 hex =
           Rgb (Math_round (real (16 * r1 + r0) * 0.08))
               (Math_round (real (16 * g1 + g0) * 0.08))
               (Math_round (real (16 * b1 + b0) * 0.08))"
    using getFillColor_formula [OF h, of 0] by simp
  show ?thesis using f z one clamp by blast
qed

theorem single_hue_channels_witness:
  "getFillColor (1 / 4) (str ''#3b82f6'') = Rgb 32 70 133
   \<and> getFillColor 0 (str ''#3b82f6'') = Rgb 5 10 20
   \<and> getFillColor 1 (str ''#3b82f6'') = Rgb 59 130 246
   \<and> getFillColor 2 (str ''#3b82f6'') = Rgb 59 130 246
   \<and> getFillColor 1 (str ''3B82F6'') = Rgb 59 130 246
   \<and> getFillColor 1 (str ''not a colour'') = Rgb 251 146 60"
proof -
  have v: "(0::real) \<le> 1 / 4" "(1::real) / 4 \<le> 1" by simp_all
  have d: "map hexValue [51, 98, 56, 50, 102, 54] = [Some 3, Some 11, Some 8, Some 2, Some 15, Some 6]"
    by (simp add: hexValue_def str_def)
  have D: "map hexValue [51, 66, 56, 50, 70, 54] = [Some 3, Some 11, Some 8, Some 2, Some 15, Some 6]"
    by (simp add: hexValue_def str_def)
  have s: "str ''#3b82f6'' = [51, 98, 56, 50, 102, 54] \<or> str ''#3b82f6'' = str ''#'' @ [51, 98, 56, 50, 102, 54]"
    by (simp add: str_def)
  have S: "str ''3B82F6'' = [51, 66, 56, 50, 70, 54] \<or> str ''3B82F6'' = str ''#'' @ [51, 66, 56, 50, 70, 54]"
    by (simp add: str_def)
  have two: "(1::real) \<le> 2" by simp
  have bad: "getFillColor 1 (str ''not a colour'') = Rgb 251 146 60"
    by (simp add: getFillColor_def hexToRgb_def hexDigit_def str_def Let_def Math_round_def)
  from single_hue_channels [OF v d s, of 2] single_hue_channels [OF v D S, of 2] two bad
  show ?thesis
    by (simp add: sqrt_quarter Math_round_def)
qed

lemma getFillColor_channels_mono:
  assumes h: "hexToRgb hex = (r, g, b)" and "0 \<le> v1" and "v1 \<le> v2" and "v2 \<le> 1"
  shows "\<exists>r1 g1 b1 r2 g2 b2. getFillColor v1 hex = Rgb r1 g1 b1 \<and> getFillColor v2 hex = Rgb r2 g2 b2
           \<and> r1 \<le> r2 \<and> g1 \<le> g2 \<and> b1 \<le> b2"
proof -
  have nn: "0 \<le> r" "0 \<le> g" "0 \<le> b" using hexToRgb_nonneg [OF h] by simp_all
  have s: "sqrt v1 \<le> sqrt v2" using assms by simp
  have f: "0.08 + sqrt v1 * 0.92 \<le> 0.08 + sqrt v2 * 0.92" using s by simp
  have m: "\<And>k::int. 0 \<le> k \<Longrightarrow>
      Math_round (real_of_int k * (0.08 + sqrt v1 * 0.92))
        \<le> Math_round (real_of_int k * (0.08 + sqrt v2 * 0.92))"
    using f by (intro Math_round_mono mult_left_mono) simp_all
  have e1: "getFillColor v1 hex =
           Rgb (Math_round (real_of_int r * (0.08 + sqrt v1 * 0.92)))
               (Math_round (real_of_int g * (0.08 + sqrt v1 * 0.92)))
               (Math_round (real_of_int b * (0.08 + sqrt v1 * 0.92)))"
    using assms by (intro getFillColor_formula) simp_all
  have e2: "getFillColor v2 hex =
           Rgb (Math_round (real_of_int r * (0.08 + sqrt v2 * 0.92)))
               (Math_round (real_of_int g * (0.08 + sqrt v2 * 0.92)))
               (Math_round (real_of_int b * (0.08 + sqrt v2 * 0.92)))"
    using assms by (intro getFillColor_formula) simp_all
  show ?thesis using e1 e2 m [OF nn(1)] m [OF nn(2)] m [OF nn(3)] by blast
qed

lemma getFillColor_luminance_mono:
  assumes "0 \<le> v1" and "v1 \<le> v2" and "v2 \<le> 1"
  shows "luminance (getFillColor v1 hex) \<le> luminance (getFillColor v2 hex)"
proof -
  obtain r g b where h: "hexToRgb hex = (r, g, b)" by (cases "hexToRgb hex") auto
  from getFillColor_channels_mono [OF h assms] show ?thesis
    by (auto intro: luminance_mono)
qed

lemma multiHue_low:
  assumes "0 \<le> v" and "v \<le> 1" and "sqrt v \<le> 0.3"
  shows "getMultiHueFillColor v =
     Rgb (Math_round (if sqrt v \<le> 0.15 then 10 + 5 * (sqrt v / 0.15)
                      else 15 + 5 * ((sqrt v - 0.15) / 0.15)))
         (Math_round (if sqrt v \<le> 0.15 then 10 + 50 * (sqrt v / 0.15)
                      else 60 + 60 * ((sqrt v - 0.15) / 0.15)))
         (Math_round (if sqrt v \<le> 0.15 then 30 + 60 * (sqrt v / 0.15)
                      else 90 + 30 * ((sqrt v - 0.15) / 0.15)))"
  using assms
  by (simp add: getMultiHueFillColor_def MULTI_HUE_STOPS_def Let_def min_def)

lemma multiHue_high:
  assumes "0 \<le> v" and "0.9 \<le> sqrt (min v 1)"
  shows "getMultiHueFillColor v =
     Rgb (Math_round (250 + 5 * ((sqrt (min v 1) - 0.9) / 0.1)))
         (Math_round (100 + 140 * ((sqrt (min v 1) - 0.9) / 0.1)))
         (Math_round (40 + 180 * ((sqrt (min v 1) - 0.9) / 0.1)))"
proof -
  have le1: "sqrt (min v 1) \<le> 1" by (simp add: min_def)
  have nn: "\<not> min v 1 < 0" using assms(1) by (simp add: min_def)
  show ?thesis
  proof (cases "sqrt (min v 1) = 0.9")
    case True
    show ?thesis unfolding getMultiHueFillColor_def Let_def True using nn
      by (simp add: MULTI_HUE_STOPS_def)
  next
    case False
    then have "0.9 < sqrt (min v 1)" using assms(2) by simp
    then show ?thesis using nn le1
      by (simp add: getMultiHueFillColor_def MULTI_HUE_STOPS_def Let_def)
  qed
qed

lemma low_pieces_mono:
  fixes t1 t2 :: real
  assumes "0 \<le> t1" and "t1 \<le> t2"
  shows "(if t1 \<le> 0.15 then 10 + 5 * (t1 / 0.15) else 15 + 5 * ((t1 - 0.15) / 0.15))
           \<le> (if t2 \<le> 0.15 then 10 + 5 * (t2 / 0.15) else 15 + 5 * ((t2 - 0.15) / 0.15))"
    and "(if t1 \<le> 0.15 then 10 + 50 * (t1 / 0.15) else 60 + 60 * ((t1 - 0.15) / 0.15))
           \<le> (if t2 \<le> 0.15 then 10 + 50 * (t2 / 0.15) else 60 + 60 * ((t2 - 0.15) / 0.15))"
    and "(if t1 \<le> 0.15 then 30 + 60 * (t1 / 0.15) else 90 + 30 * ((t1 - 0.15) / 0.15))
           \<le> (if t2 \<le> 0.15 then 30 + 60 * (t2 / 0.15) else 90 + 30 * ((t2 - 0.15) / 0.15))"
  using assms by (auto simp: field_simps)

lemma high_pieces_mono:
  fixes t1 t2 :: real
  assumes "t1 \<le> t2"
  shows "250 + 5 * ((t1 - 0.9) / 0.1) \<le> 250 + 5 * ((t2 - 0.9) / 0.1)"
    and "100 + 140 * ((t1 - 0.9) / 0.1) \<le> 100 + 140 * ((t2 - 0.9) / 0.1)"
    and "40 + 180 * ((t1 - 0.9) / 0.1) \<le> 40 + 180 * ((t2 - 0.9) / 0.1)"
  using assms by (auto simp: field_simps)

lemma multiHue_low_mono:
  assumes "0 \<le> v1" and "v1 \<le> v2" and "v2 \<le> 9 / 100"
  shows "luminance (getMultiHueFillColor v1) \<le> luminance (getMultiHueFillColor v2)"
proof -
  have t12: "sqrt v1 \<le> sqrt v2" using assms by simp
  have t2: "sqrt v2 \<le> 0.3" using assms(3) real_sqrt_le_mono [of v2 "9 / 100"]
    by (simp add: sqrt_9_100)
  have t1: "sqrt v1 \<le> 0.3" using t12 t2 by linarith
  have t0: "0 \<le> sqrt v1" using assms(1) by simp
  have e1: "getMultiHueFillColor v1 =
     Rgb (Math_round (if sqrt v1 \<le> 0.15 then 10 + 5 * (sqrt v1 / 0.15)
                      else 15 + 5 * ((sqrt v1 - 0.15) / 0.15)))
         (Math_round (if sqrt v1 \<le> 0.15 then 10 + 50 * (sqrt v1 / 0.15)
                      else 60 + 60 * ((sqrt v1 - 0.15) / 0.15)))
         (Math_round (if sqrt v1 \<le> 0.15 then 30 + 60 * (sqrt v1 / 0.15)
                      else 90 + 30 * ((sqrt v1 - 0.15) / 0.15)))"
    using assms t1 by (intro multiHue_low) simp_all
  have e2: "getMultiHueFillColor v2 =
     Rgb (Math_round (if sqrt v2 \<le> 0.15 then 10 + 5 * (sqrt v2 / 0.15)
                      else 15 + 5 * ((sqrt v2 - 0.15) / 0.15)))
         (Math_round (if sqrt v2 \<le> 0.15 then 10 + 50 * (sqrt v2 / 0.15)
                      else 60 + 60 * ((sqrt v2 - 0.15) / 0.15)))
         (Math_round (if sqrt v2 \<le> 0.15 then 30 + 60 * (sqrt v2 / 0.15)
                      else 90 + 30 * ((sqrt v2 - 0.15) / 0.15)))"
    using assms t2 by (intro multiHue_low) simp_all
  show ?thesis
    unfolding e1 e2
    by (intro luminance_mono Math_round_mono low_pieces_mono [OF t0 t12])
qed

lemma multiHue_high_mono:
  assumes "81 / 100 \<le> v1" and "v1 \<le> v2"
  shows "luminance (getMultiHueFillColor v1) \<le> luminance (getMultiHueFillColor v2)"
proof -
  have m12: "min v1 1 \<le> min v2 1" using assms(2) by (simp add: min_def)
  have t12: "sqrt (min v1 1) \<le> sqrt (min v2 1)" using m12 by simp
  have "81 / 100 \<le> min v1 1" using assms(1) by (simp add: min_def)
  then have t1: "0.9 \<le> sqrt (min v1 1)"
    using real_sqrt_le_mono [of "81 / 100" "min v1 1"] by (simp add: sqrt_81_100)
  have t2: "0.9 \<le> sqrt (min v2 1)" using t1 t12 by linarith
  have e1: "getMultiHueFillColor v1 =
     Rgb (Math_round (250 + 5 * ((sqrt (min v1 1) - 0.9) / 0.1)))
         (Math_round (100 + 140 * ((sqrt (min v1 1) - 0.9) / 0.1)))
         (Math_round (40 + 180 * ((sqrt (min v1 1) - 0.9) / 0.1)))"
    using assms t1 by (intro multiHue_high) simp_all
  have e2: "getMultiHueFillColor v2 =
     Rgb (Math_round (250 + 5 * ((sqrt (min v2 1) - 0.9) / 0.1)))
         (Math_round (100 + 140 * ((sqrt (min v2 1) - 0.9) / 0.1)))
         (Math_round (40 + 180 * ((sqrt (min v2 1) - 0.9) / 0.1)))"
    using assms t2 by (intro multiHue_high) simp_all
  show ?thesis
    unfolding e1 e2
    by (intro luminance_mono Math_round_mono high_pieces_mono [OF t12])
qed

lemma multiHue_ends:
  "getMultiHueFillColor 0 = Rgb 10 10 30" "getMultiHueFillColor 1 = Rgb 255 240 220"
  by (simp_all add: getMultiHueFillColor_def MULTI_HUE_STOPS_def Let_def Math_round_def)

text \<open>
  Claim C2, as the code has it. The single-hue fill never gets darker as the value grows
  from 0 to 1, for any base colour. The multi-hue fill never gets darker while the value
  stays below 0.09 (the stops up to teal) or above 0.81 (from orange-red on). The end
  points are the 8 percent base colour and the base colour, and the stops \<open>(10, 10, 30)\<close>
  and \<open>(255, 240, 220)\<close>.
\<close>

theorem brightness_monotone:
  "(0 \<le> v1 \<and> v1 \<le> v2 \<and> v2 \<le> 1
      \<longrightarrow> luminance (getFillColor v1 hex) \<le> luminance (getFillColor v2 hex))
   \<and> (0 \<le> v1 \<and> v1 \<le> v2 \<and> v2 \<le> 9 / 100
      \<longrightarrow> luminance (getMultiHueFillColor v1) \<le> luminance (getMultiHueFillColor v2))
   \<and> (81 / 100 \<le> v1 \<and> v1 \<le> v2
      \<longrightarrow> luminance (getMultiHueFillColor v1) \<le> luminance (getMultiHueFillColor v2))
   \<and> (hexToRgb hex = (r, g, b)
      \<longrightarrow> getFillColor 0 hex =
            Rgb (Math_round (real_of_int r * 0.08)) (Math_round (real_of_int g * 0.08))
                (Math_round (real_of_int b * 0.08))
          \<and> getFillColor 1 hex = Rgb r g b)
   \<and> getMultiHueFillColor 0 = Rgb 10 10 30
   \<and> getMultiHueFillColor 1 = Rgb 255 240 220"
proof (intro conjI impI)
  assume "0 \<le> v1 \<and> v1 \<le> v2 \<and> v2 \<le> 1"
  then show "luminance (getFillColor v1 hex) \<le> luminance (getFillColor v2 hex)"
    by (intro getFillColor_luminance_mono) simp_all
next
  assume "0 \<le> v1 \<and> v1 \<le> v2 \<and> v2 \<le> 9 / 100"
  then show "luminance (getMultiHueFillColor v1) \<le> luminance (getMultiHueFillColor v2)"
    by (intro multiHue_low_mono) simp_all
next
  assume "81 / 100 \<le> v1 \<and> v1 \<le> v2"
  then show "luminance (getMultiHueFillColor v1) \<le> luminance (getMultiHueFillColor v2)"
    by (intro multiHue_high_mono) simp_all
next
  assume h: "hexToRgb hex = (r, g, b)"
  show "getFillColor 0 hex =
            Rgb (Math_round (real_of_int r * 0.08)) (Math_round (real_of_int g * 0.08))
                (Math_round (real_of_int b * 0.08))"
    using getFillColor_formula [OF h, of 0] by simp
  show "getFillColor 1 hex = Rgb r g b"
    using getFillColor_formula [OF h, of 1] by (simp add: Math_round_of_int)
next
  show "getMultiHueFillColor 0 = Rgb 10 10 30" by (rule multiHue_ends)
  show "getMultiHueFillColor 1 = Rgb 255 240 220" by (rule multiHue_ends)
qed

theorem brightness_monotone_witness:
  "luminance (getFillColor 0 (str ''#3b82f6'')) \<le> luminance (getFillColor (1 / 4) (str ''#3b82f6''))
   \<and> luminance (getMultiHueFillColor 0) \<le> luminance (getMultiHueFillColor (9 / 100))
   \<and> luminance (getMultiHueFillColor (81 / 100)) \<le> luminance (getMultiHueFillColor 1)
   \<and> getFillColor 0 (str ''#3b82f6'') = Rgb 5 10 20
   \<and> getFillColor 1 (str ''#3b82f6'') = Rgb 59 130 246"
proof -
  have h: "hexToRgb (str ''#3b82f6'') = (59, 130, 246)"
    by (simp add: hexToRgb_def hexDigit_def str_def)
  have a: "(0::real) \<le> 0 \<and> (0::real) \<le> 1 / 4 \<and> (1::real) / 4 \<le> 1" by simp
  have b: "(0::real) \<le> 0 \<and> (0::real) \<le> 9 / 100 \<and> (9::real) / 100 \<le> 9 / 100" by simp
  have c: "(81::real) / 100 \<le> 81 / 100 \<and> (81::real) / 100 \<le> 1" by simp
  have c1: "luminance (getFillColor 0 (str ''#3b82f6'')) \<le> luminance (getFillColor (1 / 4) (str ''#3b82f6''))"
    using brightness_monotone [of 0 "1 / 4" "(str ''#3b82f6'')" 59 130 246] a by blast
  have c2: "luminance (getMultiHueFillColor 0) \<le> luminance (getMultiHueFillColor (9 / 100))"
    using brightness_monotone [of 0 "9 / 100" "(str ''#3b82f6'')" 59 130 246] b by blast
  have c3: "luminance (getMultiHueFillColor (81 / 100)) \<le> luminance (getMultiHueFillColor 1)"
    using brightness_monotone [of "81 / 100" 1 "(str ''#3b82f6'')" 59 130 246] c by blast
  have c4: "getFillColor 0 (str ''#3b82f6'') =
            Rgb (Math_round (real_of_int 59 * 0.08)) (Math_round (real_of_int 130 * 0.08))
                (Math_round (real_of_int 246 * 0.08))
          \<and> getFillColor 1 (str ''#3b82f6'') = Rgb 59 130 246"
    using brightness_monotone [of 0 0 "(str ''#3b82f6'')" 59 130 246] h by blast
  have r: "Math_round (real_of_int 59 * 0.08) = 5" "Math_round (real_of_int 130 * 0.08) = 10"
    "Math_round (real_of_int 246 * 0.08) = 20"
    by (simp_all add: Math_round_def)
  show ?thesis using c1 c2 c3 c4 unfolding r by blast
qed

text \<open>
  The multi-hue scale as a whole is not monotone in brightness: from amber
  \<open>(240, 180, 30)\<close> at position 0.75 it runs to the darker orange-red \<open>(250, 100, 40)\<close>
  at position 0.9. The values 9/16 and 49/64 have the square roots 0.75 and 0.875.
\<close>

theorem multi_hue_brightness_drops:
  "(9 / 16 :: real) \<le> 49 / 64
   \<and> getMultiHueFillColor (9 / 16) = Rgb 240 180 30
   \<and> getMultiHueFillColor (49 / 64) = Rgb 248 113 38
   \<and> luminance (getMultiHueFillColor (49 / 64)) < luminance (getMultiHueFillColor (9 / 16))"
proof -
  have a: "getMultiHueFillColor (9 / 16) = Rgb 240 180 30"
    by (simp add: getMultiHueFillColor_def MULTI_HUE_STOPS_def Let_def sqrt_9_16 Math_round_def)
  have b: "getMultiHueFillColor (49 / 64) = Rgb 248 113 38"
    by (simp add: getMultiHueFillColor_def MULTI_HUE_STOPS_def Let_def sqrt_49_64 Math_round_def)
  show ?thesis unfolding a b by (simp add: luminance_def)
qed

subsection \<open>Selection matching and the per-feature style\<close>

text \<open>
  Claim C7. The flag \<^verbatim>\<open>match\<close> of the viewport controller and the flag \<^verbatim>\<open>isMatch\<close> of
  \<^verbatim>\<open>getStyle\<close> under the same selection are the same predicate: a municipality
  selection matches exactly the features with its province and municipality, a barangay
  selection exactly those with its province, municipality and barangay.
\<close>

theorem match_predicates_agree:
  "zoomMatch sel props = isMatch (Some sel) props
   \<and> (type sel = municipality \<longrightarrow>
        (zoomMatch sel props
           \<longleftrightarrow> props_p props = province sel \<and> props_m props = municipality_of sel))
   \<and> (type sel = barangay \<longrightarrow>
        (zoomMatch sel props
           \<longleftrightarrow> props_p props = province sel \<and> props_m props = municipality_of sel
               \<and> barangay_of sel = Some (props_b props)))"
  by (cases "type sel") (auto simp: zoomMatch_def isMatch_def)

theorem match_predicates_agree_witness:
  "type (muniEntry lowerLatin1 brgyProps) = municipality \<and> type (brgyEntry lowerLatin1 brgyProps) = barangay
   \<and> zoomMatch (muniEntry lowerLatin1 brgyProps) brgyProps \<and> isMatch (Some (muniEntry lowerLatin1 brgyProps)) brgyProps
   \<and> zoomMatch (brgyEntry lowerLatin1 brgyProps) brgyProps \<and> isMatch (Some (brgyEntry lowerLatin1 brgyProps)) brgyProps
   \<and> \<not> zoomMatch (muniEntry lowerLatin1 brgyProps) otherProps
   \<and> \<not> isMatch (Some (muniEntry lowerLatin1 brgyProps)) otherProps"
proof -
  have tm: "type (muniEntry lowerLatin1 brgyProps) = municipality" by (simp add: muniEntry_def)
  have tb: "type (brgyEntry lowerLatin1 brgyProps) = barangay" by (simp add: brgyEntry_def)
  have m1: "props_p brgyProps = province (muniEntry lowerLatin1 brgyProps)
      \<and> props_m brgyProps = municipality_of (muniEntry lowerLatin1 brgyProps)"
    by (simp add: muniEntry_def)
  have b1: "props_p brgyProps = province (brgyEntry lowerLatin1 brgyProps)
      \<and> props_m brgyProps = municipality_of (brgyEntry lowerLatin1 brgyProps)
      \<and> barangay_of (brgyEntry lowerLatin1 brgyProps) = Some (props_b brgyProps)"
    by (simp add: brgyEntry_def)
  have o1: "props_m otherProps \<noteq> municipality_of (muniEntry lowerLatin1 brgyProps)"
    by (simp add: muniEntry_def brgyProps_def otherProps_def str_def)
  from tm tb m1 b1 o1
    match_predicates_agree [of "muniEntry lowerLatin1 brgyProps" brgyProps]
    match_predicates_agree [of "brgyEntry lowerLatin1 brgyProps" brgyProps]
    match_predicates_agree [of "muniEntry lowerLatin1 brgyProps" otherProps]
  show ?thesis by blast
qed

lemma getStyle_default:
  "Option.bind feature properties = None \<Longrightarrow>
     getStyle refs feature =
       \<lparr>fillColor = Css ''#000'', fillOpacity = 0.8, weight = 0.3, color = Css ''#222'',
        opacity = 0.4\<rparr>"
  by (simp add: getStyle_def)

text \<open>
  Claim C6, as the code has it. A feature without a property record (or no feature at
  all) gets the fixed default style, \<^verbatim>\<open>#000\<close> at opacity 0.8 with a 0.3 wide \<^verbatim>\<open>#222\<close>
  border, whatever the selection. For a feature with a property record the fill colour is,
  in every selection state, the colour scale at the normalised share, that is at
  \<open>(votes / av) / maxShare\<close> with the votes read under the key \<^verbatim>\<open>v_<id>\<close> (0 when
  absent), the share 0 unless \<open>av > 0\<close> and the normalised share 0 unless the maximum is
  positive. With no selection the fill opacity is 0.85 and the border 0.3 wide in
  \<^verbatim>\<open>#222\<close>; a feature matching the selection gets the strictly higher opacity 0.9 and the
  strictly wider white border of 1.5; a feature that does not match gets the strictly
  lower opacity 0.15 and keeps the thin \<^verbatim>\<open>#222\<close> border.
\<close>

theorem style_policy:
  "(Option.bind feature properties = None \<longrightarrow>
      getStyle refs feature =
        \<lparr>fillColor = Css ''#000'', fillOpacity = 0.8, weight = 0.3, color = Css ''#222'',
         opacity = 0.4\<rparr>)
   \<and> (properties feat = Some props \<longrightarrow>
       (let votes = (case props_key props (str ''v_'' @ candidateIdRef refs) of
                       None \<Rightarrow> 0 | Some n \<Rightarrow> n);
            av = (case props_av props of None \<Rightarrow> 0 | Some a \<Rightarrow> a);
            share = (if av > 0 then votes / av else 0);
            normalized = (if maxShareRef refs > 0 then share / maxShareRef refs else 0);
            scale = (if highContrastRef refs then getMultiHueFillColor normalized
                     else getFillColor normalized (colorRef refs));
            matches = (if type sel = municipality
                       then props_m props = municipality_of sel \<and> props_p props = province sel
                       else barangay_of sel = Some (props_b props)
                            \<and> props_m props = municipality_of sel
                            \<and> props_p props = province sel);
            plain = getStyle (refs\<lparr>searchRef := None\<rparr>) (Some feat);
            chosen = getStyle (refs\<lparr>searchRef := Some sel\<rparr>) (Some feat)
        in fillColor plain = scale \<and> fillOpacity plain = 0.85 \<and> weight plain = 0.3
           \<and> color plain = Css ''#222'' \<and> opacity plain = 0.4
           \<and> fillColor chosen = scale
           \<and> (matches \<longrightarrow>
                 fillOpacity chosen = 0.9 \<and> fillOpacity chosen > fillOpacity plain
                 \<and> weight chosen = 1.5 \<and> weight chosen > weight plain
                 \<and> color chosen = Css ''#fff'' \<and> opacity chosen = 0.8)
           \<and> (\<not> matches \<longrightarrow>
                 fillOpacity chosen = 0.15 \<and> fillOpacity chosen < fillOpacity plain
                 \<and> weight chosen = weight plain \<and> color chosen = color plain
                 \<and> opacity chosen = opacity plain)))"
proof (intro conjI impI)
  assume "Option.bind feature properties = None"
  then show "getStyle refs feature =
        \<lparr>fillColor = Css ''#000'', fillOpacity = 0.8, weight = 0.3, color = Css ''#222'',
         opacity = 0.4\<rparr>"
    by (rule getStyle_default)
next
  assume p: "properties feat = Some props"
  show "(let votes = (case props_key props (str ''v_'' @ candidateIdRef refs) of
                       None \<Rightarrow> 0 | Some n \<Rightarrow> n);
            av = (case props_av props of None \<Rightarrow> 0 | Some a \<Rightarrow> a);
            share = (if av > 0 then votes / av else 0);
            normalized = (if maxShareRef refs > 0 then share / maxShareRef refs else 0);
            scale = (if highContrastRef refs then getMultiHueFillColor normalized
                     else getFillColor normalized (colorRef refs));
            matches = (if type sel = municipality
                       then props_m props = municipality_of sel \<and> props_p props = province sel
                       else barangay_of sel = Some (props_b props)
                            \<and> props_m props = municipality_of sel
                            \<and> props_p props = province sel);
            plain = getStyle (refs\<lparr>searchRef := None\<rparr>) (Some feat);
            chosen = getStyle (refs\<lparr>searchRef := Some sel\<rparr>) (Some feat)
        in fillColor plain = scale \<and> fillOpacity plain = 0.85 \<and> weight plain = 0.3
           \<and> color plain = Css ''#222'' \<and> opacity plain = 0.4
           \<and> fillColor chosen = scale
           \<and> (matches \<longrightarrow>
                 fillOpacity chosen = 0.9 \<and> fillOpacity chosen > fillOpacity plain
                 \<and> weight chosen = 1.5 \<and> weight chosen > weight plain
                 \<and> color chosen = Css ''#fff'' \<and> opacity chosen = 0.8)
           \<and> (\<not> matches \<longrightarrow>
                 fillOpacity chosen = 0.15 \<and> fillOpacity chosen < fillOpacity plain
                 \<and> weight chosen = weight plain \<and> color chosen = color plain
                 \<and> opacity chosen = opacity plain))"
    using p
    by (auto simp: getStyle_def Let_def isMatch_def normalizedOf_def shareOf_def votesFor_def
          avOf_def nullish_def split: option.splits)
qed

theorem style_policy_witness:
  "getStyle exampleRefs (Some bareFeature) =
     \<lparr>fillColor = Css ''#000'', fillOpacity = 0.8, weight = 0.3, color = Css ''#222'',
      opacity = 0.4\<rparr>
   \<and> fillColor (getStyle (exampleRefs\<lparr>searchRef := None\<rparr>) (Some qcFeature))
       = getFillColor (1 / 2) (str ''#3b82f6'')
   \<and> fillColor (getStyle (exampleRefs\<lparr>searchRef := Some (muniEntry lowerLatin1 brgyProps)\<rparr>)
         (Some qcFeature))
       = getFillColor (1 / 2) (str ''#3b82f6'')
   \<and> fillOpacity (getStyle (exampleRefs\<lparr>searchRef := Some (muniEntry lowerLatin1 brgyProps)\<rparr>)
         (Some qcFeature)) = 0.9
   \<and> weight (getStyle (exampleRefs\<lparr>searchRef := Some (muniEntry lowerLatin1 brgyProps)\<rparr>)
         (Some qcFeature)) = 1.5
   \<and> color (getStyle (exampleRefs\<lparr>searchRef := Some (muniEntry lowerLatin1 brgyProps)\<rparr>)
         (Some qcFeature)) = Css ''#fff''
   \<and> fillColor (getStyle (exampleRefs\<lparr>searchRef := Some (muniEntry lowerLatin1 brgyProps)\<rparr>)
         (Some pasigFeature))
       = Rgb 59 130 246
   \<and> fillOpacity (getStyle (exampleRefs\<lparr>searchRef := Some (muniEntry lowerLatin1 brgyProps)\<rparr>)
         (Some pasigFeature)) = 0.15
   \<and> weight (getStyle (exampleRefs\<lparr>searchRef := Some (muniEntry lowerLatin1 brgyProps)\<rparr>)
         (Some pasigFeature)) = 0.3
   \<and> fillColor (getStyle (exampleRefs\<lparr>highContrastRef := True, searchRef := None\<rparr>)
         (Some pasigFeature))
       = Rgb 255 240 220
   \<and> getFillColor (1 / 2) (str ''#3b82f6'') \<noteq> Rgb 59 130 246"
proof -
  let ?S = "muniEntry lowerLatin1 brgyProps"
  have k: "str ''v_'' @ str ''s01'' = str ''v_s01''" by (simp add: str_def)
  have ne: "str ''Pasig'' \<noteq> str ''Quezon City''" by (simp add: str_def)
  have h: "hexToRgb (str ''#3b82f6'') = (59, 130, 246)"
    by (simp add: hexToRgb_def hexDigit_def str_def)
  have one: "getFillColor 1 (str ''#3b82f6'') = Rgb 59 130 246"
    using h by (rule getFillColor_clamped) simp
  have s: "sqrt (1 / 2) \<le> 3 / 4"
    using real_sqrt_le_mono [of "1 / 2" "9 / 16"] by (simp add: sqrt_9_16)
  have "Math_round (real_of_int 59 * (0.08 + sqrt (1 / 2) * 0.92)) < 59"
    using s by (simp add: Math_round_def floor_less_iff)
  then have diff: "getFillColor (1 / 2) (str ''#3b82f6'') \<noteq> Rgb 59 130 246"
    using getFillColor_formula [OF h, of "1 / 2"] by simp
  have bare: "Option.bind (Some bareFeature) properties = None" by (simp add: bareFeature_def)
  have p1: "properties qcFeature = Some brgyProps" by (simp add: qcFeature_def)
  have p2: "properties pasigFeature = Some otherProps" by (simp add: pasigFeature_def)
  note A = style_policy [of "Some bareFeature" exampleRefs qcFeature brgyProps ?S, unfolded Let_def]
  note B = style_policy [of "Some bareFeature" exampleRefs pasigFeature otherProps ?S, unfolded Let_def]
  note C = style_policy [of "Some bareFeature" "exampleRefs\<lparr>highContrastRef := True\<rparr>"
      pasigFeature otherProps ?S, unfolded Let_def]
  have d: "getStyle exampleRefs (Some bareFeature) =
     \<lparr>fillColor = Css ''#000'', fillOpacity = 0.8, weight = 0.3, color = Css ''#222'',
      opacity = 0.4\<rparr>"
    using A bare by blast
  have qc: "fillColor (getStyle (exampleRefs\<lparr>searchRef := None\<rparr>) (Some qcFeature))
       = getFillColor (1 / 2) (str ''#3b82f6'')
   \<and> fillColor (getStyle (exampleRefs\<lparr>searchRef := Some ?S\<rparr>) (Some qcFeature))
       = getFillColor (1 / 2) (str ''#3b82f6'')
   \<and> fillOpacity (getStyle (exampleRefs\<lparr>searchRef := Some ?S\<rparr>) (Some qcFeature)) = 0.9
   \<and> weight (getStyle (exampleRefs\<lparr>searchRef := Some ?S\<rparr>) (Some qcFeature)) = 1.5
   \<and> color (getStyle (exampleRefs\<lparr>searchRef := Some ?S\<rparr>) (Some qcFeature)) = Css ''#fff''"
    using A p1 by (simp add: exampleRefs_def brgyProps_def muniEntry_def k)
  have pasig: "fillColor (getStyle (exampleRefs\<lparr>searchRef := Some ?S\<rparr>) (Some pasigFeature))
       = Rgb 59 130 246
   \<and> fillOpacity (getStyle (exampleRefs\<lparr>searchRef := Some ?S\<rparr>) (Some pasigFeature)) = 0.15
   \<and> weight (getStyle (exampleRefs\<lparr>searchRef := Some ?S\<rparr>) (Some pasigFeature)) = 0.3"
    using B p2 ne one by (simp add: exampleRefs_def brgyProps_def otherProps_def muniEntry_def k)
  have hue: "fillColor (getStyle (exampleRefs\<lparr>highContrastRef := True, searchRef := None\<rparr>)
         (Some pasigFeature))
       = Rgb 255 240 220"
    using C p2 multiHue_ends(2) by (simp add: exampleRefs_def otherProps_def k)
  show ?thesis using d qc pasig hue diff by blast
qed

text \<open>
  The claim as it was stated, for every feature, fails on a feature without a property
  record: its fill is the literal \<^verbatim>\<open>#000\<close>, not a colour of the scale, and under a
  selection that it cannot match its fill opacity stays at 0.8 instead of dropping.
\<close>

theorem style_without_properties:
  "fillColor (getStyle (exampleRefs\<lparr>searchRef := None\<rparr>) (Some bareFeature)) = Css ''#000''
   \<and> fillOpacity (getStyle (exampleRefs\<lparr>searchRef := None\<rparr>) (Some bareFeature)) = 0.8
   \<and> fillOpacity
        (getStyle (exampleRefs\<lparr>searchRef := Some (muniEntry lowerLatin1 brgyProps)\<rparr>)
           (Some bareFeature)) = 0.8"
  by (simp add: getStyle_def bareFeature_def)

subsection \<open>Viewport fitting\<close>

lemma isValid_extend: "isValid (extend_bounds a b) \<longleftrightarrow> isValid a \<or> isValid b"
  by (cases a; cases b) (auto simp: isValid_def extend_bounds_def)

lemma zoom_loop_foldl:
  "zoom_loop getBounds sel features bounds
     = foldl extend_bounds bounds (matchedBounds getBounds sel features)"
  by (induction features arbitrary: bounds)
     (auto simp: matchedBounds_def split: option.splits)

lemma isValid_foldl_extend:
  "isValid (foldl extend_bounds bounds bs) \<longleftrightarrow> isValid bounds \<or> (\<exists>b \<in> set bs. isValid b)"
  by (induction bs arbitrary: bounds) (auto simp: isValid_extend)

lemma set_matchedBounds:
  "set (matchedBounds getBounds sel features) =
     {getBounds g | feat props g. feat \<in> set features \<and> properties feat = Some props
        \<and> geometry feat = Some g \<and> zoomMatch sel props}"
  by (auto simp: matchedBounds_def split: option.splits if_splits) force

text \<open>
  Claim C8. \<^verbatim>\<open>MapZoomController\<close> asks the map to fit exactly when a selection is
  present and some feature with properties and a geometry matches it and has valid
  bounds. The request then carries the union of the matching features' bounds, the
  padding \<^verbatim>\<open>[40, 40]\<close> and the zoom ceiling 16. When no feature matches, nothing is
  requested; the effect has no failing outcome.
\<close>

theorem fit_iff_valid_match:
  "(MapZoomController getBounds features searchSelection \<noteq> None
      \<longleftrightarrow> (\<exists>sel feat props g. searchSelection = Some sel \<and> feat \<in> set features
             \<and> properties feat = Some props \<and> geometry feat = Some g
             \<and> zoomMatch sel props \<and> isValid (getBounds g)))
   \<and> (\<forall>fit. MapZoomController getBounds features searchSelection = Some fit \<longrightarrow>
          padding fit = (40, 40) \<and> maxZoom fit = 16 \<and> isValid (fit_bounds fit)
          \<and> (\<exists>sel. searchSelection = Some sel
                \<and> fit_bounds fit = foldl extend_bounds None (matchedBounds getBounds sel features)))
   \<and> ((\<forall>feat \<in> set features. \<forall>props. properties feat = Some props \<longrightarrow> \<not> zoomMatch sel props)
        \<longrightarrow> MapZoomController getBounds features (Some sel) = None)"
proof (intro conjI)
  show "MapZoomController getBounds features searchSelection \<noteq> None
      \<longleftrightarrow> (\<exists>sel feat props g. searchSelection = Some sel \<and> feat \<in> set features
             \<and> properties feat = Some props \<and> geometry feat = Some g
             \<and> zoomMatch sel props \<and> isValid (getBounds g))"
  proof (cases searchSelection)
    case None
    then show ?thesis by (simp add: MapZoomController_def)
  next
    case (Some sel)
    have "MapZoomController getBounds features (Some sel) \<noteq> None
            \<longleftrightarrow> (\<exists>b \<in> set (matchedBounds getBounds sel features). isValid b)"
      by (simp add: MapZoomController_def Let_def zoom_loop_foldl isValid_foldl_extend)
         (simp add: isValid_def)
    then show ?thesis using Some by (auto simp: set_matchedBounds)
  qed
  show "\<forall>fit. MapZoomController getBounds features searchSelection = Some fit \<longrightarrow>
          padding fit = (40, 40) \<and> maxZoom fit = 16 \<and> isValid (fit_bounds fit)
          \<and> (\<exists>sel. searchSelection = Some sel
                \<and> fit_bounds fit = foldl extend_bounds None (matchedBounds getBounds sel features))"
    by (auto simp: MapZoomController_def Let_def zoom_loop_foldl split: option.splits if_splits)
  show "(\<forall>feat \<in> set features. \<forall>props. properties feat = Some props \<longrightarrow> \<not> zoomMatch sel props)
        \<longrightarrow> MapZoomController getBounds features (Some sel) = None"
  proof
    assume h: "\<forall>feat \<in> set features. \<forall>props. properties feat = Some props \<longrightarrow> \<not> zoomMatch sel props"
    have "set (matchedBounds getBounds sel features) = {}"
      using h by (auto simp: set_matchedBounds)
    then have "matchedBounds getBounds sel features = []" by simp
    then show "MapZoomController getBounds features (Some sel) = None"
      by (simp add: MapZoomController_def Let_def zoom_loop_foldl isValid_def)
  qed
qed

theorem fit_iff_valid_match_witness:
  "MapZoomController (\<lambda>g. g) mapFeatures (Some (muniEntry lowerLatin1 brgyProps)) \<noteq> None
   \<and> MapZoomController (\<lambda>g. g) mapFeatures (Some (muniEntry lowerLatin1 strayProps)) = None
   \<and> MapZoomController (\<lambda>g. g) mapFeatures (Some (muniEntry lowerLatin1 brgyProps))
       = Some \<lparr>fit_bounds = Some ((14, 121), (15, 122)), padding = (40, 40),
               maxZoom = 16\<rparr>"
proof -
  have ex: "\<exists>sel feat props g. Some (muniEntry lowerLatin1 brgyProps) = Some sel \<and> feat \<in> set mapFeatures
             \<and> properties feat = Some props \<and> geometry feat = Some g
             \<and> zoomMatch sel props \<and> isValid ((\<lambda>g. g) g)"
  proof (intro exI conjI)
    show "Some (muniEntry lowerLatin1 brgyProps) = Some (muniEntry lowerLatin1 brgyProps)" by simp
    show "qcFeature \<in> set mapFeatures" by (simp add: mapFeatures_def)
    show "properties qcFeature = Some brgyProps" by (simp add: qcFeature_def)
    show "geometry qcFeature = Some (Some ((14, 121), (15, 122)))"
      by (simp add: qcFeature_def)
    show "zoomMatch (muniEntry lowerLatin1 brgyProps) brgyProps" by (simp add: zoomMatch_def muniEntry_def)
    show "isValid (Some ((14, 121), (15, 122)))" by (simp add: isValid_def)
  qed
  have none: "\<forall>feat \<in> set mapFeatures. \<forall>props. properties feat = Some props
                \<longrightarrow> \<not> zoomMatch (muniEntry lowerLatin1 strayProps) props"
    by (auto simp: mapFeatures_def qcFeature_def pasigFeature_def zoomMatch_def muniEntry_def
          strayProps_def brgyProps_def otherProps_def str_def)
  have val: "MapZoomController (\<lambda>g. g) mapFeatures (Some (muniEntry lowerLatin1 brgyProps))
       = Some \<lparr>fit_bounds = Some ((14, 121), (15, 122)), padding = (40, 40),
               maxZoom = 16\<rparr>"
    by (simp add: MapZoomController_def mapFeatures_def qcFeature_def pasigFeature_def
          zoomMatch_def muniEntry_def brgyProps_def otherProps_def str_def extend_bounds_def
          isValid_def Let_def)
  from ex none val
    fit_iff_valid_match [of "\<lambda>g. g" mapFeatures "Some (muniEntry lowerLatin1 brgyProps)"]
    fit_iff_valid_match [of "\<lambda>g. g" mapFeatures "Some (muniEntry lowerLatin1 strayProps)" "muniEntry lowerLatin1 strayProps"]
  show ?thesis by blast
qed

subsection \<open>Search queries\<close>

lemma includes_str_sublist: "includes_str s t \<longleftrightarrow> sublist t s"
  by (induction s) (auto simp: sublist_Cons_right)

lemma dropWhile_all_space:
  "(\<forall>x \<in> set (dropWhile isSpace s). isSpace x) \<longleftrightarrow> list_all isSpace s"
proof
  assume a: "\<forall>x \<in> set (dropWhile isSpace s). isSpace x"
  have "dropWhile isSpace s = []"
  proof (rule ccontr)
    assume n: "dropWhile isSpace s \<noteq> []"
    then have "\<not> isSpace (hd (dropWhile isSpace s))" by (rule hd_dropWhile)
    moreover have "hd (dropWhile isSpace s) \<in> set (dropWhile isSpace s)" using n by (rule hd_in_set)
    ultimately show False using a by blast
  qed
  then show "list_all isSpace s" by (simp add: dropWhile_eq_Nil_conv list_all_iff)
next
  assume "list_all isSpace s"
  then show "\<forall>x \<in> set (dropWhile isSpace s). isSpace x"
    by (auto simp: list_all_iff dest: set_dropWhileD)
qed

lemma trim_Nil_iff: "trim s = [] \<longleftrightarrow> list_all isSpace s"
  by (simp add: trim_def dropWhile_eq_Nil_conv dropWhile_all_space)

lemma trim_ends:
  assumes "trim s \<noteq> []"
  shows "\<not> isSpace (hd (trim s))" and "\<not> isSpace (last (trim s))"
proof -
  let ?d = "dropWhile isSpace s"
  let ?e = "dropWhile isSpace (rev ?d)"
  have e: "?e \<noteq> []" using assms by (simp add: trim_def)
  have d: "?d \<noteq> []"
  proof
    assume a: "?d = []"
    have "?e = []" unfolding a by simp
    with e show False by contradiction
  qed
  have "last (trim s) = hd ?e" using e by (simp add: trim_def last_rev)
  then show "\<not> isSpace (last (trim s))" using hd_dropWhile [OF e] by simp
  have "hd (trim s) = last ?e" using e by (simp add: trim_def hd_rev)
  also have "\<dots> = last (rev ?d)"
    using e by (metis append_is_Nil_conv last_appendR takeWhile_dropWhile_id)
  also have "\<dots> = hd ?d" using d by (simp add: last_rev)
  finally show "\<not> isSpace (hd (trim s))" using hd_dropWhile [OF d] by simp
qed

lemma wordsOf_unfold:
  "wordsOf s =
     (if dropWhile isSpace s = [] then []
      else takeWhile (\<lambda>x. \<not> isSpace x) (dropWhile isSpace s)
           # wordsOf (dropWhile (\<lambda>x. \<not> isSpace x) (dropWhile isSpace s)))"
proof (cases "dropWhile isSpace s")
  case Nil
  show ?thesis unfolding wordsOf.simps [of s] Nil by simp
next
  case (Cons c cs)
  show ?thesis unfolding wordsOf.simps [of s] Cons by simp
qed

lemma wordsOf_blank: "list_all isSpace s \<Longrightarrow> wordsOf s = []"
  by (subst wordsOf_unfold) (simp add: dropWhile_eq_Nil_conv list_all_iff)

lemma wordsOf_starts:
  assumes "\<not> isSpace c"
  shows "wordsOf (c # cs) =
           (c # takeWhile (\<lambda>x. \<not> isSpace x) cs) # wordsOf (dropWhile (\<lambda>x. \<not> isSpace x) cs)"
  using assms by (subst wordsOf_unfold) simp

lemma wordsOf_skip: "isSpace c \<Longrightarrow> wordsOf (c # cs) = wordsOf cs"
  by (subst wordsOf_unfold, subst (2) wordsOf_unfold) simp

lemma wordsOf_dropWhile: "wordsOf (dropWhile isSpace s) = wordsOf s"
  by (induction s) (simp_all add: wordsOf_skip)

lemma wordsOf_tokens: "\<forall>t \<in> set (wordsOf s). t \<noteq> [] \<and> (\<forall>c \<in> set t. \<not> isSpace c)"
proof (induction s rule: wordsOf.induct)
  case (1 s)
  show ?case
  proof (cases "dropWhile isSpace s")
    case Nil
    show ?thesis unfolding wordsOf_unfold [of s] Nil by simp
  next
    case (Cons c cs)
    have nc: "\<not> isSpace c" using hd_dropWhile [of isSpace s] unfolding Cons by simp
    have w: "wordsOf s =
        (c # takeWhile (\<lambda>x. \<not> isSpace x) cs) # wordsOf (dropWhile (\<lambda>x. \<not> isSpace x) (c # cs))"
      unfolding wordsOf_unfold [of s] Cons using nc by simp
    have tk: "\<forall>x \<in> set (takeWhile (\<lambda>x. \<not> isSpace x) cs). \<not> isSpace x"
      using set_takeWhileD by fastforce
    have IH: "\<forall>t \<in> set (wordsOf (dropWhile (\<lambda>x. \<not> isSpace x) (c # cs))).
                t \<noteq> [] \<and> (\<forall>c \<in> set t. \<not> isSpace c)"
      by (rule 1 [OF Cons])
    have hd: "c # takeWhile (\<lambda>x. \<not> isSpace x) cs \<noteq> []
              \<and> (\<forall>x \<in> set (c # takeWhile (\<lambda>x. \<not> isSpace x) cs). \<not> isSpace x)"
      using tk nc by simp
    show ?thesis
    proof
      fix t
      assume "t \<in> set (wordsOf s)"
      then have "t = c # takeWhile (\<lambda>x. \<not> isSpace x) cs
                 \<or> t \<in> set (wordsOf (dropWhile (\<lambda>x. \<not> isSpace x) (c # cs)))"
        by (subst (asm) w) simp
      then show "t \<noteq> [] \<and> (\<forall>c \<in> set t. \<not> isSpace c)" using IH hd by blast
    qed
  qed
qed

lemma split_ws_wordsOf:
  "s \<noteq> [] \<Longrightarrow> \<not> isSpace (last s) \<Longrightarrow>
     split_ws s = (if isSpace (hd s) then [] # wordsOf s else wordsOf s)"
proof (induction s rule: split_ws.induct)
  case 1
  then show ?case by simp
next
  case (2 c cs)
  show ?case
  proof (cases "isSpace c")
    case True
    let ?d = "dropWhile isSpace cs"
    have cs: "cs \<noteq> []" using True 2(4) by auto
    then have l: "\<not> isSpace (last cs)" using 2(4) by simp
    have d: "?d \<noteq> []"
    proof
      assume "?d = []"
      then have "\<forall>x \<in> set cs. isSpace x" by (simp add: dropWhile_eq_Nil_conv)
      then show False using l cs last_in_set by blast
    qed
    have ld: "last ?d = last cs"
      using d by (metis append_is_Nil_conv last_appendR takeWhile_dropWhile_id)
    have hd: "\<not> isSpace (hd ?d)" using d by (rule hd_dropWhile)
    have "split_ws ?d = wordsOf ?d" using 2(1) [OF True d] l ld hd by simp
    then have "split_ws ?d = wordsOf cs" by (simp only: wordsOf_dropWhile)
    then show ?thesis using True by (simp add: wordsOf_skip)
  next
    case False
    show ?thesis
    proof (cases "cs = []")
      case True
      have "wordsOf [c] = [[c]]" using False by (simp add: wordsOf_starts wordsOf_blank)
      then show ?thesis using True False by simp
    next
      case nonempty: False
      then have l: "\<not> isSpace (last cs)" using 2(4) by simp
      have ih: "split_ws cs = (if isSpace (hd cs) then [] # wordsOf cs else wordsOf cs)"
        using 2(2) [OF False nonempty l] .
      obtain x xs where cx: "cs = x # xs" using nonempty by (cases cs) auto
      show ?thesis
      proof (cases "isSpace x")
        case True
        have "split_ws (c # cs) = [c] # wordsOf cs" using False ih True cx by simp
        moreover have "wordsOf (c # cs) = [c] # wordsOf cs"
          using False True cx by (simp add: wordsOf_starts)
        ultimately show ?thesis using False by simp
      next
        case nx: False
        have "split_ws cs = wordsOf cs" using ih nx cx by simp
        also have "\<dots> = (x # takeWhile (\<lambda>y. \<not> isSpace y) xs) # wordsOf (dropWhile (\<lambda>y. \<not> isSpace y) xs)"
          using nx cx by (simp add: wordsOf_starts)
        finally have "split_ws (c # cs)
            = (c # x # takeWhile (\<lambda>y. \<not> isSpace y) xs) # wordsOf (dropWhile (\<lambda>y. \<not> isSpace y) xs)"
          using False by simp
        moreover have "wordsOf (c # cs)
            = (c # x # takeWhile (\<lambda>y. \<not> isSpace y) xs) # wordsOf (dropWhile (\<lambda>y. \<not> isSpace y) xs)"
          using False nx cx by (simp add: wordsOf_starts)
        ultimately show ?thesis using False by simp
      qed
    qed
  qed
qed

lemma wordsOf_append_blank: "list_all isSpace sp \<Longrightarrow> wordsOf (u @ sp) = wordsOf u"
proof (induction u rule: length_induct)
  case (1 u)
  show ?case
  proof (cases u)
    case Nil
    then show ?thesis using 1(2) by (simp add: wordsOf_blank)
  next
    case (Cons c cs)
    show ?thesis
    proof (cases "isSpace c")
      case True
      have "wordsOf (cs @ sp) = wordsOf cs" using 1 Cons by simp
      then show ?thesis using True Cons by (simp add: wordsOf_skip)
    next
      case False
      let ?nw = "\<lambda>x. \<not> isSpace x"
      have dsp: "dropWhile ?nw sp = sp" using 1(2) by (cases sp) (simp_all)
      have tsp: "takeWhile ?nw sp = []" using 1(2) by (cases sp) (simp_all)
      have t: "takeWhile ?nw (cs @ sp) = takeWhile ?nw cs"
        using tsp by (induction cs) simp_all
      have d: "dropWhile ?nw (cs @ sp) = dropWhile ?nw cs @ sp"
        using dsp by (induction cs) simp_all
      have "length (dropWhile ?nw cs) < length u"
        using Cons length_dropWhile_le [of ?nw cs] by simp
      then have "wordsOf (dropWhile ?nw cs @ sp) = wordsOf (dropWhile ?nw cs)"
        using 1 by blast
      then show ?thesis using False Cons t d by (simp add: wordsOf_starts)
    qed
  qed
qed

lemma wordsOf_trim: "wordsOf (trim s) = wordsOf s"
proof -
  let ?d = "dropWhile isSpace s"
  let ?sp = "rev (takeWhile isSpace (rev ?d))"
  have "?d = trim s @ ?sp"
    unfolding trim_def by (metis rev_append rev_rev_ident takeWhile_dropWhile_id)
  moreover have "list_all isSpace ?sp" by (auto simp: list_all_iff dest: set_takeWhileD)
  ultimately have "wordsOf ?d = wordsOf (trim s)" using wordsOf_append_blank by metis
  then show ?thesis by (simp add: wordsOf_dropWhile)
qed

lemma tokens_match:
  "list_all (\<lambda>t. includes_str L t) (split_ws (trim x)) \<longleftrightarrow> (\<forall>t \<in> set (wordsOf x). sublist t L)"
proof (cases "trim x = []")
  case True
  then have "wordsOf x = []" by (simp add: trim_Nil_iff wordsOf_blank)
  then show ?thesis using True by (simp add: includes_str_sublist)
next
  case False
  have "split_ws (trim x) = wordsOf (trim x)"
    using split_ws_wordsOf [OF False trim_ends(2) [OF False]] trim_ends(1) [OF False] by simp
  then show ?thesis by (simp add: wordsOf_trim list_all_iff includes_str_sublist)
qed

lemma results_blank: "list_all isSpace query \<Longrightarrow> results toLowerCase query idx = []"
  by (simp add: results_def trim_Nil_iff)

lemma results_nonblank:
  assumes "\<not> list_all isSpace query"
  shows "results toLowerCase query idx =
           take 50 (filter (\<lambda>e. \<forall>t \<in> set (wordsOf (toLowerCase query)).
                                  sublist t (toLowerCase (label e))) idx)"
proof -
  have "trim query \<noteq> []" using assms by (simp add: trim_Nil_iff)
  then show ?thesis by (simp add: results_def Let_def tokens_match)
qed

text \<open>
  Claim C3. For every host \<^verbatim>\<open>toLowerCase\<close> and every index whose labels it leaves
  unchanged (the index holds lower-cased labels), the entries shown for a text are: none
  when the text is empty or white space only; otherwise the first 50, in index order,
  of the entries whose label contains every token of the lower-cased text as a
  substring. The tokens are the maximal runs of code units that are not white space,
  none of them empty: \<^verbatim>\<open>trim\<close> followed by \<^verbatim>\<open>split(/\s+/)\<close> yields exactly these.
\<close>

theorem results_filter:
  assumes "\<forall>e \<in> set idx. toLowerCase (label e) = label e"
  shows "(list_all isSpace query \<longrightarrow> results toLowerCase query idx = [])
       \<and> (\<not> list_all isSpace query \<longrightarrow>
            results toLowerCase query idx =
              take 50 (filter (\<lambda>e. \<forall>t \<in> set (wordsOf (toLowerCase query)).
                                     sublist t (label e)) idx))
       \<and> (\<forall>t \<in> set (wordsOf (toLowerCase query)). t \<noteq> [] \<and> (\<forall>c \<in> set t. \<not> isSpace c))
       \<and> length (results toLowerCase query idx) \<le> 50
       \<and> subseq (results toLowerCase query idx) idx"
proof (intro conjI impI)
  assume "list_all isSpace query"
  then show "results toLowerCase query idx = []" by (rule results_blank)
next
  assume nb: "\<not> list_all isSpace query"
  have "filter (\<lambda>e. \<forall>t \<in> set (wordsOf (toLowerCase query)).
                       sublist t (toLowerCase (label e))) idx
        = filter (\<lambda>e. \<forall>t \<in> set (wordsOf (toLowerCase query)). sublist t (label e)) idx"
    using assms by (intro filter_cong) simp_all
  then show "results toLowerCase query idx =
              take 50 (filter (\<lambda>e. \<forall>t \<in> set (wordsOf (toLowerCase query)).
                                     sublist t (label e)) idx)"
    using results_nonblank [OF nb, of toLowerCase idx] by simp
next
  show "\<forall>t \<in> set (wordsOf (toLowerCase query)). t \<noteq> [] \<and> (\<forall>c \<in> set t. \<not> isSpace c)"
    by (rule wordsOf_tokens)
next
  show "length (results toLowerCase query idx) \<le> 50" by (simp add: results_def Let_def)
next
  have "subseq (take 50 (filter (\<lambda>item. list_all (\<lambda>t. includes_str (toLowerCase (label item)) t)
          (split_ws (trim (toLowerCase query)))) idx)) idx"
    by (meson subseq_order.trans subseq_filter_left sublist_imp_subseq sublist_take)
  then show "subseq (results toLowerCase query idx) idx" by (simp add: results_def Let_def)
qed

theorem results_filter_witness:
  "results lowerLatin1 (str ''san jose'') sanJoseIndex = take 2 sanJoseIndex
   \<and> results lowerLatin1 (str ''  San Jose   Batangas '') sanJoseIndex = take 1 sanJoseIndex
   \<and> results lowerLatin1 (str ''LAS PI'' @ [209] @ str ''AS'') pinasIndex = take 2 pinasIndex
   \<and> results lowerLatin1 (str ''las'' @ [160] @ str ''pi'' @ [241] @ str ''as'' @ [160]) pinasIndex
       = take 2 pinasIndex
   \<and> results lowerLatin1 [160, 32, 9] pinasIndex = []
   \<and> wordsOf (lowerLatin1 (str ''LAS PI'' @ [209] @ str ''AS''))
       = [str ''las'', str ''pi'' @ [241] @ str ''as'']
   \<and> results lowerLatin1 (str ''LAS PI'' @ [209] @ str ''AS'') pinasIndex =
        take 50 (filter (\<lambda>e. \<forall>t \<in> set (wordsOf (lowerLatin1 (str ''LAS PI'' @ [209] @ str ''AS''))).
                               sublist t (label e)) pinasIndex)
   \<and> subseq (results lowerLatin1 (str ''san jose'') sanJoseIndex) sanJoseIndex
   \<and> list_all isSpace
        [9, 10, 11, 12, 13, 32, 160, 5760, 8192, 8197, 8202, 8232, 8233, 8239, 8287, 12288, 65279]
   \<and> list_all (\<lambda>c. \<not> isSpace c) [8, 14, 31, 33, 133, 161, 6158, 8203, 8231, 8288, 12289]"
proof -
  have sp: "list_all isSpace
        [9, 10, 11, 12, 13, 32, 160, 5760, 8192, 8197, 8202, 8232, 8233, 8239, 8287, 12288, 65279]"
    by (simp add: isSpace_def)
  have nsp: "list_all (\<lambda>c. \<not> isSpace c) [8, 14, 31, 33, 133, 161, 6158, 8203, 8231, 8288, 12289]"
    by (simp add: isSpace_def)
  have lowerS: "\<forall>e \<in> set sanJoseIndex. lowerLatin1 (label e) = label e"
    by (simp add: sanJoseIndex_def lowerLatin1_def str_def)
  have lowerP: "\<forall>e \<in> set pinasIndex. lowerLatin1 (label e) = label e"
    by (simp add: pinasIndex_def lowerLatin1_def str_def)
  have nb: "\<not> list_all isSpace (str ''LAS PI'' @ [209] @ str ''AS'')"
    by (simp add: isSpace_def str_def)
  have blank: "list_all isSpace [160, 32, 9]" by (simp add: isSpace_def)
  have t1: "results lowerLatin1 (str ''san jose'') sanJoseIndex = take 2 sanJoseIndex"
    by (simp add: results_def sanJoseIndex_def trim_def isSpace_def lowerLatin1_def str_def Let_def)
  have t2: "results lowerLatin1 (str ''  San Jose   Batangas '') sanJoseIndex = take 1 sanJoseIndex"
    by (simp add: results_def sanJoseIndex_def trim_def isSpace_def lowerLatin1_def str_def Let_def)
  have t3: "results lowerLatin1 (str ''LAS PI'' @ [209] @ str ''AS'') pinasIndex = take 2 pinasIndex"
    by (simp add: results_def pinasIndex_def trim_def isSpace_def lowerLatin1_def str_def Let_def)
  have t4: "results lowerLatin1 (str ''las'' @ [160] @ str ''pi'' @ [241] @ str ''as'' @ [160]) pinasIndex
       = take 2 pinasIndex"
    by (simp add: results_def pinasIndex_def trim_def isSpace_def lowerLatin1_def str_def Let_def)
  have w: "wordsOf (lowerLatin1 (str ''LAS PI'' @ [209] @ str ''AS''))
       = [str ''las'', str ''pi'' @ [241] @ str ''as'']"
    by (simp add: wordsOf_unfold isSpace_def lowerLatin1_def str_def)
  from t1 t2 t3 t4 w nb blank sp nsp
    results_filter [OF lowerP, of "str ''LAS PI'' @ [209] @ str ''AS''"]
    results_filter [OF lowerP, of "[160, 32, 9]"]
    results_filter [OF lowerS, of "str ''san jose''"]
  show ?thesis by blast
qed

subsection \<open>Search index\<close>




lemma mset_insort_cmp: "mset (insort_cmp cmp x xs) = add_mset x (mset xs)"
  by (induction xs) auto

lemma mset_sort_cmp: "mset (sort_cmp cmp xs) = mset xs"
  by (induction xs) (auto simp: sort_cmp_def mset_insort_cmp)

lemma set_sort_cmp: "set (sort_cmp cmp xs) = set xs"
  using mset_sort_cmp [of cmp xs] by (metis set_mset_mset)




lemma propsOf_Nil: "propsOf [] = []"
  by (simp add: propsOf_def List.map_filter_simps)

lemma propsOf_Cons:
  "propsOf (feat # rest) =
     (case properties feat of None \<Rightarrow> propsOf rest | Some props \<Rightarrow> props # propsOf rest)"
  by (simp add: propsOf_def List.map_filter_simps split: option.split)

lemma index_loop_brgy:
  "snd (index_loop toLowerCase features muniSet brgyList) = brgyList @ map (brgyEntry toLowerCase) (propsOf features)"
  by (induction features arbitrary: muniSet brgyList)
     (auto simp: propsOf_Nil propsOf_Cons split: option.split)

lemma entryKey_muniEntry: "entryKey (muniEntry toLowerCase props) = muniKey props"
  by (simp add: entryKey_def muniEntry_def muniKey_def)

lemma find_append_left: "find P xs = Some x \<Longrightarrow> find P (xs @ ys) = Some x"
  by (induction xs) (auto split: if_splits)

lemma find_append_right: "\<forall>x \<in> set xs. \<not> P x \<Longrightarrow> find P (xs @ ys) = find P ys"
  by (induction xs) auto

lemma muniInv_old:
  assumes "muniInv toLowerCase ps ms" and "(k, e) \<in> set ms"
  shows "\<exists>p. find (\<lambda>q. muniKey q = k) (ps @ [props]) = Some p \<and> e = muniEntry toLowerCase p"
proof -
  obtain p where p: "find (\<lambda>q. muniKey q = k) ps = Some p" "e = muniEntry toLowerCase p"
    using assms unfolding muniInv_def by blast
  have "find (\<lambda>q. muniKey q = k) (ps @ [props]) = Some p"
    using p(1) by (rule find_append_left)
  then show ?thesis using p(2) by blast
qed

lemma muniInv_keys: "muniInv toLowerCase ps ms \<Longrightarrow> fst ` set ms = muniKey ` set ps"
  by (simp add: muniInv_def)

lemma muniInv_step:
  assumes "muniInv toLowerCase ps ms"
  shows "muniInv toLowerCase (ps @ [props])
           (if map_of ms (muniKey props) \<noteq> None then ms
            else ms @ [(muniKey props, muniEntry toLowerCase props)])"
proof (cases "map_of ms (muniKey props) \<noteq> None")
  case True
  then have k: "muniKey props \<in> fst ` set ms" by (simp add: map_of_eq_None_iff)
  have d: "distinct (map fst ms)" using assms by (simp add: muniInv_def)
  have s: "fst ` set ms = muniKey ` set (ps @ [props])"
    using k muniInv_keys [OF assms] by auto
  have e: "\<forall>(k, e) \<in> set ms. \<exists>p. find (\<lambda>q. muniKey q = k) (ps @ [props]) = Some p \<and> e = muniEntry toLowerCase p"
    using muniInv_old [OF assms] by blast
  show ?thesis using True d s e unfolding muniInv_def by simp
next
  case False
  then have k: "muniKey props \<notin> fst ` set ms" by (simp add: map_of_eq_None_iff)
  then have nk: "\<forall>x \<in> set ps. muniKey x \<noteq> muniKey props"
    using muniInv_keys [OF assms] by (metis imageI)
  have d0: "distinct (map fst ms)" using assms by (simp add: muniInv_def)
  have d: "distinct (map fst (ms @ [(muniKey props, muniEntry toLowerCase props)]))"
    using d0 k by simp
  have s: "fst ` set (ms @ [(muniKey props, muniEntry toLowerCase props)]) = muniKey ` set (ps @ [props])"
    using muniInv_keys [OF assms] by auto
  have new: "find (\<lambda>q. muniKey q = muniKey props) (ps @ [props]) = Some props"
    using nk by (simp add: find_append_right)
  have old: "\<forall>(k, e) \<in> set ms. \<exists>p. find (\<lambda>q. muniKey q = k) (ps @ [props]) = Some p \<and> e = muniEntry toLowerCase p"
    using muniInv_old [OF assms] by blast
  have e: "\<forall>(k, e) \<in> set (ms @ [(muniKey props, muniEntry toLowerCase props)]).
           \<exists>p. find (\<lambda>q. muniKey q = k) (ps @ [props]) = Some p \<and> e = muniEntry toLowerCase p"
    using old new by auto
  show ?thesis using False d s e unfolding muniInv_def by simp
qed

lemma index_loop_muni:
  assumes "muniInv toLowerCase ps muniSet"
  shows "muniInv toLowerCase (ps @ propsOf features) (fst (index_loop toLowerCase features muniSet brgyList))"
  using assms
proof (induction features arbitrary: ps muniSet brgyList)
  case Nil
  then show ?case by (simp add: propsOf_Nil)
next
  case (Cons feat rest)
  show ?case
  proof (cases "properties feat")
    case None
    then show ?thesis using Cons by (simp add: propsOf_Cons)
  next
    case (Some props)
    have "muniInv toLowerCase ((ps @ [props]) @ propsOf rest)
            (fst (index_loop toLowerCase rest
               (if map_of muniSet (muniKey props) \<noteq> None then muniSet
                else muniSet @ [(muniKey props, muniEntry toLowerCase props)])
               (brgyList @ [brgyEntry toLowerCase props])))"
      by (rule Cons.IH) (rule muniInv_step [OF Cons.prems])
    then show ?thesis using Some by (simp add: propsOf_Cons)
  qed
qed

lemma muniInv_empty: "muniInv toLowerCase [] []"
  by (simp add: muniInv_def)

lemma searchIndex_split:
  "searchIndex localeCompare toLowerCase features =
     sort_cmp (byLabel localeCompare) (map snd (fst (index_loop toLowerCase features [] [])))
     @ sort_cmp (byLabel localeCompare) (map (brgyEntry toLowerCase) (propsOf features))"
proof (cases "features = []")
  case True
  then show ?thesis by (simp add: searchIndex_def sort_cmp_def propsOf_Nil)
next
  case False
  have "snd (index_loop toLowerCase features [] []) = map (brgyEntry toLowerCase) (propsOf features)"
    using index_loop_brgy [of toLowerCase features "[]" "[]"] by simp
  then show ?thesis using False
    by (cases "index_loop toLowerCase features [] []") (simp add: searchIndex_def Let_def)
qed

lemma muniInv_pair:
  assumes "muniInv toLowerCase ps ms" and "x \<in> set ms"
  shows "entryKey (snd x) = fst x"
    and "\<exists>p. find (\<lambda>q. muniKey q = entryKey (snd x)) ps = Some p \<and> snd x = muniEntry toLowerCase p"
    and "type (snd x) = municipality"
proof -
  obtain k e where x: "x = (k, e)" by (cases x)
  obtain p where p: "find (\<lambda>q. muniKey q = k) ps = Some p" "e = muniEntry toLowerCase p"
    using assms x unfolding muniInv_def by blast
  have "\<exists>i < length ps. muniKey (ps ! i) = k \<and> p = ps ! i"
    using p(1) unfolding find_Some_iff by blast
  then have kp: "muniKey p = k" by blast
  show ek: "entryKey (snd x) = fst x" using x p(2) kp by (simp add: entryKey_muniEntry)
  show "\<exists>p. find (\<lambda>q. muniKey q = entryKey (snd x)) ps = Some p \<and> snd x = muniEntry toLowerCase p"
    using p x ek by auto
  show "type (snd x) = municipality" using x p(2) by (simp add: muniEntry_def)
qed

lemma muniInv_entries:
  assumes "muniInv toLowerCase ps ms"
  shows "map entryKey (map snd ms) = map fst ms"
    and "\<forall>e \<in> set (map snd ms). \<exists>p. find (\<lambda>q. muniKey q = entryKey e) ps = Some p \<and> e = muniEntry toLowerCase p"
    and "\<forall>e \<in> set (map snd ms). type e = municipality"
proof -
  show "map entryKey (map snd ms) = map fst ms"
    using muniInv_pair(1) [OF assms] by (simp add: map_eq_conv)
  show "\<forall>e \<in> set (map snd ms). \<exists>p. find (\<lambda>q. muniKey q = entryKey e) ps = Some p \<and> e = muniEntry toLowerCase p"
    using muniInv_pair(2) [OF assms] by auto
  show "\<forall>e \<in> set (map snd ms). type e = municipality"
    using muniInv_pair(3) [OF assms] by auto
qed




lemma filter_all: "\<forall>x \<in> set xs. P x \<Longrightarrow> filter P xs = xs"
  by (induction xs) auto

lemma filter_none: "\<forall>x \<in> set xs. \<not> P x \<Longrightarrow> filter P xs = []"
  by (induction xs) auto

lemma searchIndex_parts:
  fixes features :: "'g Feature list" and localeCompare :: "js_string \<Rightarrow> js_string \<Rightarrow> int"
    and toLowerCase :: "js_string \<Rightarrow> js_string"
  defines "ms \<equiv> fst (index_loop toLowerCase features [] [])"
  defines "M \<equiv> sort_cmp (byLabel localeCompare) (map snd ms)"
  defines "L \<equiv> sort_cmp (byLabel localeCompare) (map (brgyEntry toLowerCase) (propsOf features))"
  shows "searchIndex localeCompare toLowerCase features = M @ L"
    and "adminEntries (searchIndex localeCompare toLowerCase features) = M"
    and "leafEntries (searchIndex localeCompare toLowerCase features) = L"
    and "muniInv toLowerCase (propsOf features) ms"
    and "\<forall>e \<in> set M. type e = municipality"
    and "\<forall>e \<in> set L. type e = barangay"
proof -
  show idx: "searchIndex localeCompare toLowerCase features = M @ L"
    unfolding M_def L_def ms_def by (rule searchIndex_split)
  show inv: "muniInv toLowerCase (propsOf features) ms"
    using index_loop_muni [OF muniInv_empty, of toLowerCase features "[]"] by (simp add: ms_def)
  show tM: "\<forall>e \<in> set M. type e = municipality"
    using muniInv_entries(3) [OF inv] by (simp add: M_def set_sort_cmp)
  show tL: "\<forall>e \<in> set L. type e = barangay"
    by (auto simp: L_def set_sort_cmp brgyEntry_def)
  have nM: "\<forall>e \<in> set M. \<not> type e = barangay" using tM by simp
  have nL: "\<forall>e \<in> set L. \<not> type e = municipality" using tL by simp
  show "adminEntries (searchIndex localeCompare toLowerCase features) = M"
    unfolding idx adminEntries_def using filter_all [OF tM] filter_none [OF nL] by simp
  show "leafEntries (searchIndex localeCompare toLowerCase features) = L"
    unfolding idx leafEntries_def using filter_all [OF tL] filter_none [OF nM] by simp
qed


lemma searchIndex_labels_lower:
  assumes "\<forall>s. toLowerCase (toLowerCase s) = toLowerCase s"
    and "e \<in> set (searchIndex localeCompare toLowerCase features)"
  shows "toLowerCase (label e) = label e"
proof -
  let ?ms = "fst (index_loop toLowerCase features [] [])"
  have "e \<in> set (map snd ?ms) \<or> e \<in> set (map (brgyEntry toLowerCase) (propsOf features))"
    using assms unfolding searchIndex_parts(1) by (simp only: set_append set_sort_cmp Un_iff)
  then show ?thesis
  proof
    assume "e \<in> set (map snd ?ms)"
    then obtain p where "e = muniEntry toLowerCase p"
      using muniInv_entries(2) [OF searchIndex_parts(4)] by blast
    then show ?thesis using assms(1) by (simp add: muniEntry_def)
  next
    assume "e \<in> set (map (brgyEntry toLowerCase) (propsOf features))"
    then obtain p where "e = brgyEntry toLowerCase p" by auto
    then show ?thesis using assms(1) by (simp add: brgyEntry_def)
  qed
qed



end
